theory Spec2Isabelle
  imports Main
begin

section \<open>JavaScript strings\<close>

text \<open>
  The client is TypeScript. Its strings are modelled as \<open>string\<close>; every marker the code
  looks for (\<open>data: \<close>, \<open>Error:\<close>, \<open>[END_OF_DOC=\<close>, \<open>=\<close>, the newline) is ASCII.
  The functions below are the \<open>String.prototype\<close> methods the components call.
\<close>

definition startsWith :: "string \<Rightarrow> string \<Rightarrow> bool" where
  "startsWith s p = (take (length p) s = p)"

text \<open>\<open>s.includes(sub)\<close>: \<open>sub\<close> starts at some position of \<open>s\<close>.\<close>

fun includes_js :: "string \<Rightarrow> string \<Rightarrow> bool" where
  "includes_js [] sub = (sub = [])"
| "includes_js (c # cs) sub = (startsWith (c # cs) sub \<or> includes_js cs sub)"

text \<open>\<open>s.slice(n)\<close> for \<open>n \<ge> 0\<close>.\<close>

definition slice_from :: "nat \<Rightarrow> string \<Rightarrow> string" where
  "slice_from n s = drop n s"

text \<open>
  \<open>s.split(sep)\<close> for a separator of one character (the code splits at the newline and at
  \<open>=\<close>). The result is never empty: \<open>"".split("=")\<close> is \<open>[""]\<close>.
\<close>

fun split_js :: "char \<Rightarrow> string \<Rightarrow> string list" where
  "split_js sep [] = [[]]"
| "split_js sep (c # cs) =
     (if c = sep then [] # split_js sep cs
      else (case split_js sep cs of
              w # ws \<Rightarrow> (c # w) # ws
            | [] \<Rightarrow> [[c]]))"

text \<open>\<open>xs[i]\<close> on an array: \<open>undefined\<close> (here \<open>None\<close>) out of range.\<close>

definition nth_js :: "'a list \<Rightarrow> nat \<Rightarrow> 'a option" where
  "nth_js xs i = (if i < length xs then Some (xs ! i) else None)"

text \<open>
  \<open>s.trim()\<close> removes the white space and line terminators of ECMAScript at both ends.
  Of those, the ones a \<open>char\<close> can hold are TAB, LF, VT, FF, CR, SPACE and NBSP.
\<close>

definition WhiteSpace :: "char \<Rightarrow> bool" where
  "WhiteSpace c = (c \<in> set [CHR 0x09, CHR 0x0A, CHR 0x0B, CHR 0x0C, CHR 0x0D, CHR 0x20, CHR 0xA0])"

definition trim_js :: "string \<Rightarrow> string" where
  "trim_js s = rev (dropWhile WhiteSpace (rev (dropWhile WhiteSpace s)))"

section \<open>JSON values\<close>

text \<open>
  Request bodies go through \<open>JSON.stringify\<close> and responses through \<open>response.json()\<close>;
  the TypeScript interfaces are erased at run time, so what the components hold is a JSON
  value. A property read that finds nothing is \<open>undefined\<close>, here \<open>None\<close>. Numbers are
  only passed through, never computed with; they are modelled as integers.
\<close>

datatype json =
    JNull
  | JBool bool
  | JNumber int
  | JString string
  | JArray "json list"
  | JObject "(string \<times> json) list"

fun get_prop :: "json \<Rightarrow> string \<Rightarrow> json option" where
  "get_prop (JObject kvs) k = map_of kvs k"
| "get_prop _ k = None"

text \<open>JavaScript truthiness, as \<open>x && ...\<close> and \<open>!x\<close> test it.\<close>

fun truthy :: "json \<Rightarrow> bool" where
  "truthy JNull = False"
| "truthy (JBool b) = b"
| "truthy (JNumber n) = (n \<noteq> 0)"
| "truthy (JString s) = (s \<noteq> [])"
| "truthy (JArray xs) = True"
| "truthy (JObject kvs) = True"

text \<open>
  \<open>JSON.stringify\<close> of an object literal leaves out every property whose value is
  \<open>undefined\<close>.
\<close>

fun stringify_props :: "(string \<times> json option) list \<Rightarrow> (string \<times> json) list" where
  "stringify_props [] = []"
| "stringify_props ((k, None) # kvs) = stringify_props kvs"
| "stringify_props ((k, Some v) # kvs) = (k, v) # stringify_props kvs"

section \<open>The declared types (types file)\<close>

datatype ContractType =
    TERMS_OF_SERVICE
  | PRIVACY_POLICY
  | SERVICE_AGREEMENT
  | NDA
  | EMPLOYMENT_CONTRACT
  | PARTNERSHIP_AGREEMENT

text \<open>The string each member of the enum stands for.\<close>

fun ContractType_value :: "ContractType \<Rightarrow> string" where
  "ContractType_value TERMS_OF_SERVICE = ''terms_of_service''"
| "ContractType_value PRIVACY_POLICY = ''privacy_policy''"
| "ContractType_value SERVICE_AGREEMENT = ''service_agreement''"
| "ContractType_value NDA = ''nda''"
| "ContractType_value EMPLOYMENT_CONTRACT = ''employment_contract''"
| "ContractType_value PARTNERSHIP_AGREEMENT = ''partnership_agreement''"

definition ContractType_values :: "string list" where
  "ContractType_values =
     map ContractType_value
       [TERMS_OF_SERVICE, PRIVACY_POLICY, SERVICE_AGREEMENT, NDA, EMPLOYMENT_CONTRACT,
        PARTNERSHIP_AGREEMENT]"

fun is_string :: "json option \<Rightarrow> bool" where
  "is_string (Some (JString s)) = True"
| "is_string _ = False"

fun is_optional_string :: "json option \<Rightarrow> bool" where
  "is_optional_string None = True"
| "is_optional_string v = is_string v"

fun is_ContractType :: "json option \<Rightarrow> bool" where
  "is_ContractType (Some (JString s)) = (s \<in> set ContractType_values)"
| "is_ContractType _ = False"

fun is_optional_string_array :: "json option \<Rightarrow> bool" where
  "is_optional_string_array None = True"
| "is_optional_string_array (Some (JArray xs)) = list_all (\<lambda>x. is_string (Some x)) xs"
| "is_optional_string_array _ = False"

text \<open>
  \<open>interface BusinessContext\<close>: \<open>description: string\<close>, and the optional strings
  \<open>industry\<close>, \<open>location\<close>, \<open>company_size\<close>.
\<close>

fun is_BusinessContext :: "json option \<Rightarrow> bool" where
  "is_BusinessContext (Some (JObject kvs)) =
     (is_string (map_of kvs ''description'') \<and>
      is_optional_string (map_of kvs ''industry'') \<and>
      is_optional_string (map_of kvs ''location'') \<and>
      is_optional_string (map_of kvs ''company_size''))"
| "is_BusinessContext _ = False"

text \<open>
  \<open>interface ContractGenerationRequest\<close>: \<open>business_context\<close>, \<open>contract_type\<close> and
  \<open>language\<close> are required, \<open>custom_sections\<close> and \<open>jurisdiction\<close> are optional.
\<close>

definition is_ContractGenerationRequest :: "json \<Rightarrow> bool" where
  "is_ContractGenerationRequest j =
     (is_BusinessContext (get_prop j ''business_context'') \<and>
      is_ContractType (get_prop j ''contract_type'') \<and>
      is_optional_string_array (get_prop j ''custom_sections'') \<and>
      is_string (get_prop j ''language'') \<and>
      is_optional_string (get_prop j ''jurisdiction''))"

text \<open>The property names of \<open>interface ContractGenerationResponse\<close>.\<close>

definition ContractGenerationResponse_fields :: "string list" where
  "ContractGenerationResponse_fields =
     [''contract_id'', ''contract_type'', ''sections'', ''total_sections'',
      ''estimated_pages'', ''generation_time'', ''model_used'']"

text \<open>
  The property names of \<open>interface ContractData\<close>, the type the generator component
  declares for its \<open>contractData\<close> state.
\<close>

definition ContractData_fields :: "string list" where
  "ContractData_fields =
     [''contractId'', ''contractType'', ''sections'', ''totalSections'', ''estimatedPages'',
      ''generationTime'', ''modelUsed'', ''htmlContent'']"

section \<open>The form component\<close>

text \<open>
  \<open>ContractForm\<close> holds two pieces of state. The text area's \<open>onChange\<close> is the only
  place that calls a setter; the select that called \<open>setContractType\<close> is commented
  out, so no event of the form changes \<open>contractType\<close>.
\<close>

record form_state =
  businessDescription :: string
  contractType :: ContractType

definition form_initial :: form_state where
  "form_initial = \<lparr>businessDescription = [], contractType = TERMS_OF_SERVICE\<rparr>"

text \<open>What a submit does: the \<open>alert\<close>, or the call of \<open>onSubmit\<close> with the form data.\<close>

datatype submit_result = Alert string | OnSubmit json

definition handleSubmit :: "form_state \<Rightarrow> submit_result" where
  "handleSubmit s =
     (if trim_js (businessDescription s) = []
      then Alert ''Please provide a business description''
      else OnSubmit
        (JObject (stringify_props
          [(''business_context'',
              Some (JObject (stringify_props
                [(''description'', Some (JString (trim_js (businessDescription s))))]))),
           (''contract_type'', Some (JString (ContractType_value (contractType s))))])))"

text \<open>The submit button carries \<open>disabled={!businessDescription.trim()}\<close>.\<close>

definition submit_disabled :: "form_state \<Rightarrow> bool" where
  "submit_disabled s = (trim_js (businessDescription s) = [])"

datatype form_event = Change_description string | Submit_form

fun form_step :: "form_state \<times> submit_result list \<Rightarrow> form_event \<Rightarrow> form_state \<times> submit_result list" where
  "form_step (s, out) (Change_description v) = (s\<lparr>businessDescription := v\<rparr>, out)"
| "form_step (s, out) Submit_form = (s, out @ [handleSubmit s])"

definition run_form :: "form_event list \<Rightarrow> form_state \<times> submit_result list" where
  "run_form evs = foldl form_step (form_initial, []) evs"

text \<open>The form data handed to \<open>onSubmit\<close> in the course of a run of the form.\<close>

definition submitted :: "form_event list \<Rightarrow> json list" where
  "submitted evs = [fd. OnSubmit fd \<leftarrow> snd (run_form evs)]"

text \<open>
  Modelled from the spec: the generation endpoint's validation of the description is not
  among the sources; the spec says it requires a non-empty description.
\<close>

definition server_rejects_description :: "string \<Rightarrow> bool" where
  "server_rejects_description d = (d = [])"

section \<open>The generator component\<close>

text \<open>
  An exception value, as far as the \<open>catch\<close> blocks read it: \<open>err.name\<close> and
  \<open>err.message\<close>. \<open>new Error(m)\<close> has the name \<open>Error\<close>; the rejection of an aborted
  fetch or read has the name \<open>AbortError\<close>.
\<close>

datatype js_error = JsError (name: string) (message: string)

definition new_Error :: "string \<Rightarrow> js_error" where
  "new_Error m = JsError ''Error'' m"

definition AbortError :: js_error where
  "AbortError = JsError ''AbortError'' ''The user aborted a request.''"

text \<open>
  A call of \<open>fetch\<close>: the URL, the JSON body and whether the abort controller's signal is
  passed along.
\<close>

datatype request = Fetch (url: string) (body: json) (signal: bool)

text \<open>
  \<open>handleGenerateContract\<close> is an \<open>async\<close> function: a call of it runs until the next
  \<open>await\<close> and continues when the awaited promise settles. A call is recorded with the
  \<open>await\<close> it is suspended at and with its local variable \<open>content\<close>. Calls can
  overlap: the component keeps every call that has not returned, and each goes on when its
  own promise settles.
\<close>

datatype phase =
    Awaiting_response
  | Reading
  | Fetching_full
  | Finished

record handler =
  phase :: phase
  content :: string

text \<open>
  The four \<open>useState\<close> cells of the component; the abort controller held by the ref
  (\<open>None\<close> while the ref is null, otherwise whether its signal is aborted); the calls of
  \<open>handleGenerateContract\<close>, oldest first (the ref holds the controller of the last
  one, whose signal went with that call's fetch); the number of calls of
  \<open>handleDownload\<close> that have not returned; and the fetches issued so far.
\<close>

record client_state =
  isGenerating :: bool
  contractData :: json
  streamingContent :: string
  error :: "string option"
  abortController :: "bool option"
  handlers :: "handler list"
  downloads :: nat
  requests :: "request list"

definition initial_state :: client_state where
  "initial_state =
     \<lparr>isGenerating = False, contractData = JNull, streamingContent = [], error = None,
      abortController = None, handlers = [], downloads = 0, requests = []\<rparr>"

text \<open>
  How the promise a call awaits can settle. In the branch for a response that is not
  \<open>ok\<close> every path throws; the outcome carries the exception thrown there. A chunk is
  carried as the text \<open>decoder.decode(value)\<close> returns.
\<close>

datatype outcome =
    Fetch_rejected js_error
  | Response_not_ok js_error
  | Response_no_body
  | Response_stream
  | Read_chunk string
  | Read_done
  | Read_rejected js_error
  | Full_rejected js_error
  | Full_not_ok nat
  | Full_ok json

text \<open>
  What can happen to the component: the form submits, the user clicks the stop or the
  download button, the promise awaited by one of the calls of \<open>handleGenerateContract\<close>
  settles (the calls are numbered from 0), or a pending download fails or completes.
\<close>

datatype event =
    Submit json
  | Stop_clicked
  | Download_clicked
  | Settled nat outcome
  | Download_failed js_error
  | Download_done

text \<open>The synchronous start of \<open>handleGenerateContract(formData)\<close>, up to the first \<open>await\<close>.\<close>

definition handleGenerateContract_start :: "json \<Rightarrow> client_state \<Rightarrow> client_state" where
  "handleGenerateContract_start formData s =
     s\<lparr>isGenerating := True, error := None, streamingContent := [], contractData := JNull,
       abortController := Some False,
       handlers := handlers s @ [\<lparr>phase = Awaiting_response, content = []\<rparr>],
       requests := requests s @ [Fetch ''/api/generate-contract'' formData True]\<rparr>"

text \<open>The \<open>catch\<close> block of \<open>handleGenerateContract\<close>, followed by its \<open>finally\<close>.\<close>

definition catch_finally :: "js_error \<Rightarrow> client_state \<Rightarrow> client_state" where
  "catch_finally err s =
     s\<lparr>error :=
         (if name err = ''AbortError'' then Some ''Contract generation was cancelled''
          else if message err \<noteq> [] then Some (message err)
          else Some ''Failed to generate contract''),
       isGenerating := False\<rparr>"

text \<open>A normal return of \<open>handleGenerateContract\<close>: only the \<open>finally\<close> block runs.\<close>

definition return_finally :: "client_state \<Rightarrow> client_state" where
  "return_finally s = s\<lparr>isGenerating := False\<rparr>"

text \<open>\<open>handleStopGeneration\<close> aborts the controller if the ref holds one.\<close>

definition handleStopGeneration :: "client_state \<Rightarrow> client_state" where
  "handleStopGeneration s =
     s\<lparr>abortController := map_option (\<lambda>_. True) (abortController s),
       isGenerating := False\<rparr>"

text \<open>
  How the \<open>for\<close> loop over the lines of one chunk ends. The loop is given the value
  of the local variable \<open>content\<close> (here \<open>content'\<close>) and returns it.
\<close>

datatype loop_exit =
    Next_read
  | Sentinel_line "string option"
  | Thrown js_error

fun for_lines :: "string list \<Rightarrow> string \<Rightarrow> client_state \<Rightarrow> loop_exit \<times> string \<times> client_state" where
  "for_lines [] content' s = (Next_read, content', s)"
| "for_lines (line # rest) content' s =
     (if includes_js line ''[END_OF_DOC=''
      then (Sentinel_line (nth_js (split_js CHR ''='' line) 1), content', s)
      else if startsWith line ''data: ''
      then (let data = slice_from 6 line in
            if startsWith data ''Error:''
            then (Thrown (new_Error data), content', s)
            else for_lines rest (content' @ data) (s\<lparr>streamingContent := content' @ data\<rparr>))
      else for_lines rest content' s)"

text \<open>The fetch \<open>getFullContract(contract_id)\<close> issues; no signal is passed to it.\<close>

definition getFullContract_request :: "string option \<Rightarrow> request" where
  "getFullContract_request contract_id =
     Fetch ''/api/generate-contract-full''
       (JObject (stringify_props [(''contract_id'', map_option JString contract_id)])) False"

text \<open>The decimal digits of a number, for the template string with \<open>response.status\<close>.\<close>

fun show_nat :: "nat \<Rightarrow> string" where
  "show_nat n =
     (if n < 10 then [char_of (48 + n)]
      else show_nat (n div 10) @ [char_of (48 + n mod 10)])"

text \<open>
  A call goes on when the promise it awaits settles: up to its next \<open>await\<close>, or to its
  return through \<open>catch\<close> and \<open>finally\<close>. An outcome that does not answer the
  awaited promise leaves the call and the component as they are; so does any outcome for a
  call that has returned.
\<close>

definition resume :: "outcome \<Rightarrow> handler \<Rightarrow> client_state \<Rightarrow> handler \<times> client_state" where
  "resume out h s =
     (case phase h of
        Awaiting_response \<Rightarrow>
          (case out of
             Fetch_rejected err \<Rightarrow> (h\<lparr>phase := Finished\<rparr>, catch_finally err s)
           | Response_not_ok err \<Rightarrow> (h\<lparr>phase := Finished\<rparr>, catch_finally err s)
           | Response_no_body \<Rightarrow>
               (h\<lparr>phase := Finished\<rparr>, catch_finally (new_Error ''No response body'') s)
           | Response_stream \<Rightarrow> (h\<lparr>phase := Reading, content := []\<rparr>, s)
           | _ \<Rightarrow> (h, s))
      | Reading \<Rightarrow>
          (case out of
             Read_chunk chunk \<Rightarrow>
               (case for_lines (split_js CHR 0x0A chunk) (content h) s of
                  (Next_read, c, s') \<Rightarrow> (h\<lparr>content := c\<rparr>, s')
                | (Sentinel_line contract_id, c, s') \<Rightarrow>
                    (h\<lparr>phase := Fetching_full, content := c\<rparr>,
                     s'\<lparr>requests := requests s' @ [getFullContract_request contract_id]\<rparr>)
                | (Thrown err, c, s') \<Rightarrow>
                    (h\<lparr>phase := Finished, content := c\<rparr>, catch_finally err s'))
           | Read_done \<Rightarrow> (h\<lparr>phase := Finished\<rparr>, return_finally s)
           | Read_rejected err \<Rightarrow> (h\<lparr>phase := Finished\<rparr>, catch_finally err s)
           | _ \<Rightarrow> (h, s))
      | Fetching_full \<Rightarrow>
          (case out of
             Full_rejected err \<Rightarrow>
               (h\<lparr>phase := Finished\<rparr>,
                return_finally
                  (s\<lparr>error := Some (if message err \<noteq> [] then message err
                                      else ''Failed to get full contract'')\<rparr>))
           | Full_not_ok status \<Rightarrow>
               (h\<lparr>phase := Finished\<rparr>,
                return_finally
                  (s\<lparr>error := Some (''HTTP error! status: '' @ show_nat status)\<rparr>))
           | Full_ok data \<Rightarrow>
               (h\<lparr>phase := Finished\<rparr>, return_finally (s\<lparr>contractData := data\<rparr>))
           | _ \<Rightarrow> (h, s))
      | Finished \<Rightarrow> (h, s))"

text \<open>
  \<open>handleDownload\<close> returns at once while \<open>contractData\<close> is falsy; otherwise it posts
  the object literal built from \<open>contractData\<close>.
\<close>

definition handleDownload :: "client_state \<Rightarrow> request option" where
  "handleDownload s =
     (if \<not> truthy (contractData s) then None
      else Some (Fetch ''/api/download-contract''
        (JObject (stringify_props
          [(''businessContext'', get_prop (contractData s) ''businessContext''),
           (''contractType'', get_prop (contractData s) ''contractType''),
           (''customSections'', Some (JArray [])),
           (''language'', Some (JString ''en'')),
           (''jurisdiction'', Some (JString []))]))
        False))"

text \<open>
  A click on the stop button: \<open>handleStopGeneration\<close> runs, and an aborted signal rejects
  the fetch or read pending on it with an \<open>AbortError\<close>. The signal of the controller in
  the ref went with the fetch of the last call only; the fetch of \<open>getFullContract\<close> has
  no signal and goes on.
\<close>

definition stop_clicked :: "client_state \<Rightarrow> client_state" where
  "stop_clicked s =
     (if handlers s = [] then handleStopGeneration s
      else if phase (last (handlers s)) = Awaiting_response \<or> phase (last (handlers s)) = Reading
      then (catch_finally AbortError (handleStopGeneration s))
             \<lparr>handlers := butlast (handlers s) @ [(last (handlers s))\<lparr>phase := Finished\<rparr>]\<rparr>
      else handleStopGeneration s)"

text \<open>
  One step of the component. The form shows its submit button while \<open>isGenerating\<close> is
  false and the stop button while it is true. A failed download (a response that is not
  \<open>ok\<close>, or a rejected promise) sets the error message.
\<close>

definition step :: "client_state \<Rightarrow> event \<Rightarrow> client_state" where
  "step s ev =
     (case ev of
        Submit formData \<Rightarrow>
          if isGenerating s then s else handleGenerateContract_start formData s
      | Stop_clicked \<Rightarrow> if isGenerating s then stop_clicked s else s
      | Download_clicked \<Rightarrow>
          (case handleDownload s of
             None \<Rightarrow> s
           | Some r \<Rightarrow> s\<lparr>downloads := Suc (downloads s), requests := requests s @ [r]\<rparr>)
      | Settled i out \<Rightarrow>
          if i < length (handlers s)
          then (case resume out (handlers s ! i) s of
                  (h, s') \<Rightarrow> s'\<lparr>handlers := (handlers s)[i := h]\<rparr>)
          else s
      | Download_failed err \<Rightarrow>
          if downloads s = 0 then s
          else s\<lparr>downloads := downloads s - 1,
                 error := Some (if message err \<noteq> [] then message err
                                else ''Failed to download contract'')\<rparr>
      | Download_done \<Rightarrow>
          if downloads s = 0 then s else s\<lparr>downloads := downloads s - 1\<rparr>)"

definition run :: "client_state \<Rightarrow> event list \<Rightarrow> client_state" where
  "run s evs = foldl step s evs"

subsection \<open>Sessions\<close>

text \<open>
  A session: the form data is submitted in some state of the component, then events
  follow. The call of the session is the last one as long as nothing else is submitted.
\<close>

definition session :: "client_state \<Rightarrow> json \<Rightarrow> event list \<Rightarrow> client_state" where
  "session s0 formData evs = run (handleGenerateContract_start formData s0) evs"

definition latest :: "client_state \<Rightarrow> handler" where
  "latest s = last (handlers s)"

text \<open>The event that the promise awaited by the last call settles.\<close>

definition to_latest :: "client_state \<Rightarrow> outcome \<Rightarrow> event" where
  "to_latest s out = Settled (length (handlers s) - 1) out"

fun is_Submit :: "event \<Rightarrow> bool" where
  "is_Submit (Submit formData) = True"
| "is_Submit _ = False"

definition no_submit :: "event list \<Rightarrow> bool" where
  "no_submit evs = (filter is_Submit evs = [])"

text \<open>
  Nothing is pending: every earlier call of \<open>handleGenerateContract\<close> has returned and
  no download is under way.
\<close>

definition quiescent :: "client_state \<Rightarrow> bool" where
  "quiescent s = (filter (\<lambda>h. phase h \<noteq> Finished) (handlers s) = [] \<and> downloads s = 0)"

text \<open>The fetches a session has issued: those after the ones issued before it started.\<close>

definition issued_since :: "client_state \<Rightarrow> client_state \<Rightarrow> request list" where
  "issued_since s0 s = drop (length (requests s0)) (requests s)"

definition is_full_request :: "request \<Rightarrow> bool" where
  "is_full_request r = (url r = ''/api/generate-contract-full'')"

text \<open>The cells of the component other than the list of the fetches issued.\<close>

definition cells ::
  "client_state \<Rightarrow> bool \<times> json \<times> string \<times> string option \<times> bool option \<times> handler list \<times> nat" where
  "cells s =
     (isGenerating s, contractData s, streamingContent s, error s, abortController s,
      handlers s, downloads s)"

subsection \<open>Lines of the stream\<close>

text \<open>
  The lines the loop goes through: each chunk is split at the newline on its own. The
  loop goes on after a line unless the line holds the sentinel marker or is a data line
  with an error payload.
\<close>

definition chunk_lines :: "string list \<Rightarrow> string list" where
  "chunk_lines chunks = concat (map (split_js CHR 0x0A) chunks)"

definition has_sentinel :: "string \<Rightarrow> bool" where
  "has_sentinel line = includes_js line ''[END_OF_DOC=''"

definition is_data_line :: "string \<Rightarrow> bool" where
  "is_data_line line = startsWith line ''data: ''"

definition payload :: "string \<Rightarrow> string" where
  "payload line = slice_from 6 line"

definition is_error_line :: "string \<Rightarrow> bool" where
  "is_error_line line = (is_data_line line \<and> startsWith (payload line) ''Error:'')"

definition keeps_reading :: "string \<Rightarrow> bool" where
  "keeps_reading line = (\<not> has_sentinel line \<and> \<not> is_error_line line)"

text \<open>The payloads of the data lines among the given lines, joined in their order.\<close>

definition data_payloads :: "string list \<Rightarrow> string" where
  "data_payloads ls = concat (map payload (filter is_data_line ls))"

text \<open>
  Two readings of a line with an \<open>=\<close>: all the text after its first \<open>=\<close>, and the text
  between its first \<open>=\<close> and the next one (or the end of the line).
\<close>

definition text_after_first_equals :: "string \<Rightarrow> string" where
  "text_after_first_equals line = tl (dropWhile (\<lambda>c. c \<noteq> CHR ''='') line)"

definition text_between_equals :: "string \<Rightarrow> string" where
  "text_between_equals line = takeWhile (\<lambda>c. c \<noteq> CHR ''='') (text_after_first_equals line)"

subsection \<open>The invariant of a session\<close>

text \<open>
  What holds at every \<open>await\<close> of a session that started with nothing pending and in
  which nothing else is submitted: the earlier calls stay as they were, the session has
  issued its generation request, before a sentinel line is processed nothing has been
  retrieved and no document is stored, and the retrieval is issued at most once. In
  \<open>phase_inv\<close> the list holds the fetches issued after the generation request.
\<close>

definition phase_inv :: "handler \<Rightarrow> request list \<Rightarrow> client_state \<Rightarrow> bool" where
  "phase_inv h rs s =
     (case phase h of
        Awaiting_response \<Rightarrow>
          rs = [] \<and> contractData s = JNull \<and> streamingContent s = [] \<and>
          isGenerating s \<and> downloads s = 0
      | Reading \<Rightarrow>
          rs = [] \<and> contractData s = JNull \<and> streamingContent s = content h \<and>
          isGenerating s \<and> downloads s = 0
      | Fetching_full \<Rightarrow>
          (\<exists>contract_id. rs = [getFullContract_request contract_id]) \<and>
          contractData s = JNull \<and> downloads s = 0
      | Finished \<Rightarrow>
          \<not> isGenerating s \<and> length (filter is_full_request rs) \<le> 1 \<and>
          (filter is_full_request rs = [] \<longrightarrow>
             rs = [] \<and> contractData s = JNull \<and> downloads s = 0))"

definition session_inv :: "client_state \<Rightarrow> json \<Rightarrow> client_state \<Rightarrow> bool" where
  "session_inv s0 formData s =
     (\<exists>rs. requests s = requests s0 @ Fetch ''/api/generate-contract'' formData True # rs \<and>
        handlers s \<noteq> [] \<and> butlast (handlers s) = handlers s0 \<and>
        abortController s \<noteq> None \<and> phase_inv (latest s) rs s)"

subsection \<open>What the component renders\<close>

text \<open>
  A place in the JSX of the form \<open>{x && <element>}\<close>: the element when \<open>x\<close> is truthy;
  otherwise React is handed \<open>x\<close> itself and shows the text \<open>0\<close> for the number 0 and
  nothing for the other falsy values.
\<close>

datatype 'a slot = Hidden | Zero | Shown 'a

definition falsy_slot :: "json \<Rightarrow> 'a slot" where
  "falsy_slot x = (if x = JNumber 0 then Zero else Hidden)"

definition guarded :: "json \<Rightarrow> 'a \<Rightarrow> 'a slot" where
  "guarded x element = (if truthy x then Shown element else falsy_slot x)"

text \<open>The props \<open>ContractGenerator\<close> passes to \<open>ContractDisplay\<close>.\<close>

record display_props =
  content_prop :: "json option"
  isStreaming :: bool
  metadata :: "json option"

text \<open>
  The right column of \<open>ContractGenerator\<close>: the download button, the error box, the
  spinner, the display of the streamed text, the display of the fetched contract, and the
  placeholder. Each is guarded by a condition on the state.
\<close>

record generator_view =
  download_button :: "unit slot"
  error_box :: "string option"
  spinner :: bool
  streaming_display :: "display_props option"
  contract_display :: "display_props slot"
  placeholder :: bool

definition render_generator :: "client_state \<Rightarrow> generator_view" where
  "render_generator s =
     \<lparr>download_button = guarded (contractData s) (),
      error_box = (case error s of None \<Rightarrow> None | Some e \<Rightarrow> if e \<noteq> [] then Some e else None),
      spinner = isGenerating s,
      streaming_display =
        (if streamingContent s \<noteq> [] \<and> \<not> truthy (contractData s)
         then Some \<lparr>content_prop = Some (JString (streamingContent s)),
                     isStreaming = isGenerating s, metadata = None\<rparr>
         else None),
      contract_display =
        guarded (contractData s)
          \<lparr>content_prop = get_prop (contractData s) ''htmlContent'',
            isStreaming = False, metadata = Some (contractData s)\<rparr>,
      placeholder = (\<not> isGenerating s \<and> streamingContent s = [] \<and> \<not> truthy (contractData s))\<rparr>"

text \<open>
  \<open>formatContractType\<close>: every underscore becomes a space, then the first character of
  every run of word characters (\<open>\b\w\<close>) is put in upper case.
\<close>

definition is_word_char :: "char \<Rightarrow> bool" where
  "is_word_char c =
     (c \<in> set ''abcdefghijklmnopqrstuvwxyzABCDEFGHIJKLMNOPQRSTUVWXYZ0123456789_'')"

text \<open>\<open>toUpperCase\<close> on a word character: a lower-case letter becomes its capital.\<close>

definition toUpperCase_char :: "char \<Rightarrow> char" where
  "toUpperCase_char c =
     (case map_of (zip ''abcdefghijklmnopqrstuvwxyz'' ''ABCDEFGHIJKLMNOPQRSTUVWXYZ'') c of
        Some u \<Rightarrow> u
      | None \<Rightarrow> c)"

fun capitalize_words :: "bool \<Rightarrow> string \<Rightarrow> string" where
  "capitalize_words prev_word [] = []"
| "capitalize_words prev_word (c # cs) =
     (if is_word_char c \<and> \<not> prev_word then toUpperCase_char c else c)
       # capitalize_words (is_word_char c) cs"

definition formatContractType :: "string \<Rightarrow> string" where
  "formatContractType type =
     capitalize_words False (map (\<lambda>c. if c = CHR ''_'' then CHR '' '' else c) type)"

text \<open>
  A value put into the JSX as a child, \<open>{value}\<close>: React shows a string or a number as
  text, nothing for a boolean, null or undefined, the members of an array one after the
  other, and throws for any other object (\<open>Objects are not valid as a React child\<close>).
\<close>

datatype text_node = Text string | Number int

datatype render_failure = TypeError | Invalid_child

fun render_child :: "json \<Rightarrow> render_failure + text_node list"
  and render_children :: "json list \<Rightarrow> render_failure + text_node list" where
  "render_child JNull = Inr []"
| "render_child (JBool b) = Inr []"
| "render_child (JNumber n) = Inr [Number n]"
| "render_child (JString t) = Inr [Text t]"
| "render_child (JArray xs) = render_children xs"
| "render_child (JObject kvs) = Inl Invalid_child"
| "render_children [] = Inr []"
| "render_children (x # xs) =
     (case render_child x of
        Inl failure \<Rightarrow> Inl failure
      | Inr nodes \<Rightarrow>
          (case render_children xs of
             Inl failure \<Rightarrow> Inl failure
           | Inr others \<Rightarrow> Inr (nodes @ others)))"

definition render_value :: "json option \<Rightarrow> render_failure + text_node list" where
  "render_value v = (case v of None \<Rightarrow> Inr [] | Some x \<Rightarrow> render_child x)"

text \<open>
  The details panel of \<open>ContractDisplay\<close>: the formatted contract type, and the texts
  \<open>{metadata.total_sections} sections\<close>, \<open>~{metadata.estimated_pages} pages\<close>,
  \<open>{metadata.generation_time}s\<close> and \<open>Generated using {metadata.model_used}\<close>.
\<close>

record details_panel =
  contract_type_text :: string
  total_sections_text :: "text_node list"
  estimated_pages_text :: "text_node list"
  generation_time_text :: "text_node list"
  model_used_text :: "text_node list"

definition render_details :: "json \<Rightarrow> string \<Rightarrow> render_failure + details_panel" where
  "render_details md type_text =
     (case (render_value (get_prop md ''total_sections''),
            render_value (get_prop md ''estimated_pages''),
            render_value (get_prop md ''generation_time''),
            render_value (get_prop md ''model_used'')) of
        (Inr sections, Inr pages, Inr time, Inr model) \<Rightarrow>
          Inr \<lparr>contract_type_text = type_text,
               total_sections_text = sections @ [Text '' sections''],
               estimated_pages_text = Text ''~'' # pages @ [Text '' pages''],
               generation_time_text = time @ [Text ''s''],
               model_used_text = Text ''Generated using '' # model\<rparr>
      | _ \<Rightarrow> Inl Invalid_child)"

text \<open>
  What \<open>ContractDisplay\<close> shows: the details panel, the content set as inner HTML,
  the live indicators, and the content statistics (the length of the content and whether
  it contains \<open><\<close>).
\<close>

record display_view =
  details :: "details_panel slot"
  inner_html :: "json option"
  live :: bool
  stats :: "(nat \<times> bool) slot"

text \<open>
  The statistics are shown for a truthy content; \<open>content.includes\<close> exists on
  strings and arrays only, and calling it on another value throws.
\<close>

definition content_stats :: "json option \<Rightarrow> render_failure + (nat \<times> bool) slot" where
  "content_stats c =
     (case c of
        None \<Rightarrow> Inr Hidden
      | Some (JString t) \<Rightarrow>
          Inr (guarded (JString t) (length t, includes_js t ''<''))
      | Some (JArray xs) \<Rightarrow> Inr (Shown (length xs, JString ''<'' \<in> set xs))
      | Some v \<Rightarrow> if truthy v then Inl TypeError else Inr (falsy_slot v))"

text \<open>
  Rendering \<open>ContractDisplay\<close>. While the function runs, \<open>formatContractType\<close> calls
  \<open>replace\<close> on \<open>metadata.contract_type\<close>, which throws unless that is a string, and
  the statistics call \<open>content.includes\<close>. React then renders the children of the
  details panel, which throws for a child that is an object.
\<close>

definition ContractDisplay :: "display_props \<Rightarrow> render_failure + display_view" where
  "ContractDisplay props =
     (case metadata props of
        None \<Rightarrow>
          (case content_stats (content_prop props) of
             Inl failure \<Rightarrow> Inl failure
           | Inr st \<Rightarrow>
               Inr \<lparr>details = Hidden, inner_html = content_prop props,
                    live = isStreaming props, stats = st\<rparr>)
      | Some md \<Rightarrow>
          if \<not> truthy md
          then (case content_stats (content_prop props) of
                  Inl failure \<Rightarrow> Inl failure
                | Inr st \<Rightarrow>
                    Inr \<lparr>details = falsy_slot md, inner_html = content_prop props,
                         live = isStreaming props, stats = st\<rparr>)
          else (case get_prop md ''contract_type'' of
                  Some (JString type) \<Rightarrow>
                    (case content_stats (content_prop props) of
                       Inl failure \<Rightarrow> Inl failure
                     | Inr st \<Rightarrow>
                         (case render_details md (formatContractType type) of
                            Inl failure \<Rightarrow> Inl failure
                          | Inr d \<Rightarrow>
                              Inr \<lparr>details = Shown d, inner_html = content_prop props,
                                   live = isStreaming props, stats = st\<rparr>))
                | _ \<Rightarrow> Inl TypeError))"

text \<open>
  The properties of the fetched document the two components read: the generator reads
  \<open>htmlContent\<close>, the display reads the five metadata properties.
\<close>

definition generator_reads :: "string list" where
  "generator_reads = [''htmlContent'']"

definition display_reads :: "string list" where
  "display_reads =
     [''contract_type'', ''total_sections'', ''estimated_pages'', ''generation_time'',
      ''model_used'']"

text \<open>
  A value that is absent or not an object (an array is one), and the text React shows
  for it.
\<close>

fun is_primitive :: "json option \<Rightarrow> bool" where
  "is_primitive None = True"
| "is_primitive (Some (JArray xs)) = False"
| "is_primitive (Some (JObject kvs)) = False"
| "is_primitive (Some v) = True"

fun primitive_text :: "json option \<Rightarrow> text_node list" where
  "primitive_text (Some (JNumber n)) = [Number n]"
| "primitive_text (Some (JString t)) = [Text t]"
| "primitive_text v = []"

section \<open>Properties\<close>

subsection \<open>The form\<close>

lemma rev_split: "rev (dropWhile P (rev xs)) @ rev (takeWhile P (rev xs)) = xs"
proof -
  have "rev (takeWhile P (rev xs) @ dropWhile P (rev xs)) = xs"
    by (simp only: takeWhile_dropWhile_id rev_rev_ident)
  then show ?thesis by (simp only: rev_append)
qed


lemma trim_js_decomp:
  "\<exists>pre suf. s = pre @ trim_js s @ suf \<and> list_all WhiteSpace pre \<and> list_all WhiteSpace suf"
proof -
  define t where "t = dropWhile WhiteSpace s"
  define u where "u = rev (takeWhile WhiteSpace (rev t))"
  define p where "p = takeWhile WhiteSpace s"
  have t: "trim_js s @ u = t"
    unfolding trim_js_def t_def u_def by (simp only: rev_split)
  have "p @ t = s"
    unfolding p_def t_def by simp
  then have s: "s = p @ trim_js s @ u"
    unfolding t by (rule sym)
  have a: "list_all WhiteSpace p"
    unfolding p_def by (auto simp: list_all_iff dest: set_takeWhileD)
  have b: "list_all WhiteSpace u"
    unfolding u_def by (auto simp: list_all_iff dest: set_takeWhileD)
  from a b have "s = p @ trim_js s @ u \<and> list_all WhiteSpace p \<and> list_all WhiteSpace u"
    using s by (intro conjI)
  then show ?thesis by (intro exI)
qed

lemma trim_js_last: "trim_js s \<noteq> [] \<Longrightarrow> \<not> WhiteSpace (last (trim_js s))"
  by (simp add: trim_js_def last_rev hd_dropWhile)


lemma trim_js_hd: "trim_js s \<noteq> [] \<Longrightarrow> \<not> WhiteSpace (hd (trim_js s))"
proof -
  assume ne: "trim_js s \<noteq> []"
  define t where "t = dropWhile WhiteSpace s"
  define u where "u = rev (takeWhile WhiteSpace (rev t))"
  have t: "t = trim_js s @ u"
    unfolding trim_js_def t_def u_def by (simp only: rev_split)
  have h: "hd t = hd (trim_js s)"
    unfolding t using ne by simp
  have "t \<noteq> []"
    unfolding t using ne by simp
  then have "\<not> WhiteSpace (hd t)" unfolding t_def by (rule hd_dropWhile)
  then show ?thesis unfolding h .
qed


lemma trim_js_empty_iff: "trim_js s = [] \<longleftrightarrow> list_all WhiteSpace s"
proof
  assume e: "trim_js s = []"
  obtain pre suf where s: "s = pre @ trim_js s @ suf"
    and ws: "list_all WhiteSpace pre" "list_all WhiteSpace suf"
    using trim_js_decomp [of s] by blast
  have "list_all WhiteSpace (pre @ trim_js s @ suf)"
    unfolding e using ws by simp
  then show "list_all WhiteSpace s" by (simp only: s [symmetric])
next
  assume "list_all WhiteSpace s"
  then have d: "dropWhile WhiteSpace s = []"
    by (induction s) simp_all
  show "trim_js s = []" unfolding trim_js_def d by simp
qed


lemma run_form_snoc: "run_form (evs @ [e]) = form_step (run_form evs) e"
  by (simp add: run_form_def)


lemma run_form_inv:
  "contractType (fst (run_form evs)) = TERMS_OF_SERVICE \<and>
   (\<forall>fd. OnSubmit fd \<in> set (snd (run_form evs)) \<longrightarrow>
      get_prop fd ''contract_type'' = Some (JString ''terms_of_service''))"
proof (induction evs rule: rev_induct)
  case Nil
  then show ?case by (simp add: run_form_def form_initial_def)
next
  case (snoc e evs)
  obtain s out where r: "run_form evs = (s, out)" by (cases "run_form evs")
  with snoc show ?case
    by (cases e) (auto simp: run_form_snoc handleSubmit_def split: if_splits)
qed


lemma submitted_iff: "fd \<in> set (submitted evs) \<longleftrightarrow> OnSubmit fd \<in> set (snd (run_form evs))"
  by (auto simp: submitted_def split: submit_result.splits)



lemma submitted_contract_type:
  "fd \<in> set (submitted evs) \<Longrightarrow>
   get_prop fd ''contract_type'' = Some (JString ''terms_of_service'')"
  using run_form_inv [of evs] by (simp add: submitted_iff)

lemma handleSubmit_OnSubmit:
  assumes "handleSubmit s = OnSubmit fd"
  shows "trim_js (businessDescription s) \<noteq> []"
    and "fd = JObject [(''business_context'',
                 JObject [(''description'', JString (trim_js (businessDescription s)))]),
               (''contract_type'', JString (ContractType_value (contractType s)))]"
  using assms by (auto simp: handleSubmit_def split: if_splits)

text \<open>
  C6. A request submitted by the form should conform to \<open>ContractGenerationRequest\<close>,
  whose \<open>language\<close> is required. Typing a description and submitting hands \<open>onSubmit\<close>
  an object with the two properties \<open>business_context\<close> and \<open>contract_type\<close> only: it
  has no \<open>language\<close> and does not conform.
\<close>

theorem form_request_lacks_language:
  "submitted [Change_description ''A SaaS company'', Submit_form] =
     [JObject [(''business_context'', JObject [(''description'', JString ''A SaaS company'')]),
               (''contract_type'', JString ''terms_of_service'')]] \<and>
   get_prop (hd (submitted [Change_description ''A SaaS company'', Submit_form])) ''language'' = None \<and>
   \<not> is_ContractGenerationRequest (hd (submitted [Change_description ''A SaaS company'', Submit_form]))"
  by (simp add: submitted_def run_form_def form_initial_def handleSubmit_def trim_js_def
      WhiteSpace_def is_ContractGenerationRequest_def)

text \<open>
  C7 (as amended). The form does not collect the contract type: whatever the user does,
  the \<open>contract_type\<close> of every submitted request is \<open>terms_of_service\<close>, the
  initial value of the \<open>contractType\<close> state.
\<close>

theorem form_contract_type_is_initial:
  assumes "fd \<in> set (submitted evs)"
  shows "get_prop fd ''contract_type'' = Some (JString (ContractType_value TERMS_OF_SERVICE))"
  using submitted_contract_type [OF assms] by simp

text \<open>A run of the form that submits a request, and the contract type it carries.\<close>

theorem form_contract_type_is_initial_witness:
  "JObject [(''business_context'', JObject [(''description'', JString ''shop'')]),
            (''contract_type'', JString ''terms_of_service'')]
     \<in> set (submitted [Change_description '' shop'', Submit_form]) \<and>
   get_prop (JObject [(''business_context'', JObject [(''description'', JString ''shop'')]),
            (''contract_type'', JString ''terms_of_service'')]) ''contract_type''
     = Some (JString (ContractType_value TERMS_OF_SERVICE))"
proof -
  have h: "JObject [(''business_context'', JObject [(''description'', JString ''shop'')]),
            (''contract_type'', JString ''terms_of_service'')]
     \<in> set (submitted [Change_description '' shop'', Submit_form])"
    by (simp add: submitted_def run_form_def form_initial_def handleSubmit_def trim_js_def
      WhiteSpace_def)
  from h form_contract_type_is_initial [OF h] show ?thesis by (intro conjI)
qed

text \<open>
  C7 as stated fails: it is not the case that every value of \<open>ContractType\<close> is carried
  by the request of some user interaction (no run of the form submits \<open>nda\<close>).
\<close>

theorem form_never_submits_nda:
  "\<not> (\<forall>ct. \<exists>evs fd. fd \<in> set (submitted evs) \<and>
          get_prop fd ''contract_type'' = Some (JString (ContractType_value ct)))"
proof
  assume "\<forall>ct. \<exists>evs fd. fd \<in> set (submitted evs) \<and>
          get_prop fd ''contract_type'' = Some (JString (ContractType_value ct))"
  then obtain evs fd where "fd \<in> set (submitted evs)"
    and "get_prop fd ''contract_type'' = Some (JString (ContractType_value NDA))"
    by blast
  with submitted_contract_type [of fd evs] show False by simp
qed

text \<open>
  C8. When \<open>handleSubmit\<close> calls \<open>onSubmit\<close>, the description in the request is the
  text of the text area with the white space at both ends removed: the text is white space,
  then the description, then white space, and the description is not empty and neither
  begins nor ends with white space. So the text was not blank, the submit button was not
  disabled, and the server's check for an empty description does not reject the request.
\<close>

theorem handleSubmit_trims_description:
  assumes "handleSubmit s = OnSubmit fd"
  shows "\<exists>bc d pre suf.
           get_prop fd ''business_context'' = Some bc \<and>
           get_prop bc ''description'' = Some (JString d) \<and>
           d = trim_js (businessDescription s) \<and>
           businessDescription s = pre @ d @ suf \<and>
           list_all WhiteSpace pre \<and> list_all WhiteSpace suf \<and>
           d \<noteq> [] \<and> \<not> WhiteSpace (hd d) \<and> \<not> WhiteSpace (last d) \<and>
           \<not> list_all WhiteSpace (businessDescription s) \<and>
           \<not> submit_disabled s \<and>
           \<not> server_rejects_description d"
proof -
  let ?d = "trim_js (businessDescription s)"
  from handleSubmit_OnSubmit [OF assms]
  have ne: "?d \<noteq> []"
    and fd: "fd = JObject [(''business_context'', JObject [(''description'', JString ?d)]),
               (''contract_type'', JString (ContractType_value (contractType s)))]"
    by blast+
  obtain pre suf where dec: "businessDescription s = pre @ ?d @ suf"
    and ws: "list_all WhiteSpace pre" "list_all WhiteSpace suf"
    using trim_js_decomp [of "businessDescription s"] by blast
  have g1: "get_prop fd ''business_context'' = Some (JObject [(''description'', JString ?d)])"
    unfolding fd by simp
  have g2: "get_prop (JObject [(''description'', JString ?d)]) ''description'' = Some (JString ?d)"
    by simp
  have nb: "\<not> list_all WhiteSpace (businessDescription s)"
    using ne by (simp add: trim_js_empty_iff)
  have nd: "\<not> submit_disabled s"
    using ne by (simp add: submit_disabled_def)
  have ns: "\<not> server_rejects_description ?d"
    using ne by (simp add: server_rejects_description_def)
  from g1 g2 dec ws ne trim_js_hd [OF ne] trim_js_last [OF ne] nb nd ns
  show ?thesis by blast
qed

text \<open>The theorem at a description typed with blanks around it.\<close>

theorem handleSubmit_trims_description_witness:
  "handleSubmit \<lparr>businessDescription = '' A SaaS company  '', contractType = TERMS_OF_SERVICE\<rparr> =
     OnSubmit (JObject [(''business_context'', JObject [(''description'', JString ''A SaaS company'')]),
               (''contract_type'', JString ''terms_of_service'')]) \<and>
   (\<exists>bc d pre suf.
           get_prop (JObject [(''business_context'', JObject [(''description'', JString ''A SaaS company'')]),
               (''contract_type'', JString ''terms_of_service'')]) ''business_context'' = Some bc \<and>
           get_prop bc ''description'' = Some (JString d) \<and>
           d = ''A SaaS company'' \<and>
           '' A SaaS company  '' = pre @ d @ suf \<and>
           list_all WhiteSpace pre \<and> list_all WhiteSpace suf \<and>
           d \<noteq> [] \<and> \<not> WhiteSpace (hd d) \<and> \<not> WhiteSpace (last d) \<and>
           \<not> server_rejects_description d)"
proof -
  let ?s = "\<lparr>businessDescription = '' A SaaS company  '', contractType = TERMS_OF_SERVICE\<rparr>"
  have t: "trim_js '' A SaaS company  '' = ''A SaaS company''"
    by (simp add: trim_js_def WhiteSpace_def)
  have h: "handleSubmit ?s =
     OnSubmit (JObject [(''business_context'', JObject [(''description'', JString ''A SaaS company'')]),
               (''contract_type'', JString ''terms_of_service'')])"
    by (simp add: handleSubmit_def t)
  from handleSubmit_trims_description [OF h] have "\<exists>bc d pre suf.
           get_prop (JObject [(''business_context'', JObject [(''description'', JString ''A SaaS company'')]),
               (''contract_type'', JString ''terms_of_service'')]) ''business_context'' = Some bc \<and>
           get_prop bc ''description'' = Some (JString d) \<and>
           d = ''A SaaS company'' \<and>
           '' A SaaS company  '' = pre @ d @ suf \<and>
           list_all WhiteSpace pre \<and> list_all WhiteSpace suf \<and>
           d \<noteq> [] \<and> \<not> WhiteSpace (hd d) \<and> \<not> WhiteSpace (last d) \<and>
           \<not> server_rejects_description d"
    unfolding t [symmetric] by (simp only: form_state.simps) blast
  with h show ?thesis by (intro conjI)
qed

subsection \<open>JavaScript strings and the sentinel line\<close>

lemma startsWith_iff: "startsWith s p \<longleftrightarrow> (\<exists>suf. s = p @ suf)"
proof
  assume "startsWith s p"
  then have "take (length p) s = p" by (simp add: startsWith_def)
  then have "s = p @ drop (length p) s" by (metis append_take_drop_id)
  then show "\<exists>suf. s = p @ suf" ..
next
  assume "\<exists>suf. s = p @ suf"
  then show "startsWith s p" by (auto simp: startsWith_def)
qed

lemma includes_js_iff: "includes_js s sub \<longleftrightarrow> (\<exists>pre suf. s = pre @ sub @ suf)"
proof (induction s)
  case Nil
  then show ?case by auto
next
  case (Cons c cs)
  show ?case
  proof
    assume "includes_js (c # cs) sub"
    then consider "startsWith (c # cs) sub" | "includes_js cs sub" by auto
    then show "\<exists>pre suf. c # cs = pre @ sub @ suf"
    proof cases
      case 1
      then obtain suf where "c # cs = sub @ suf" by (auto simp: startsWith_iff)
      then have "c # cs = [] @ sub @ suf" by simp
      then show ?thesis by blast
    next
      case 2
      with Cons obtain pre suf where "cs = pre @ sub @ suf" by blast
      then have "c # cs = (c # pre) @ sub @ suf" by simp
      then show ?thesis by blast
    qed
  next
    assume "\<exists>pre suf. c # cs = pre @ sub @ suf"
    then obtain pre suf where e: "c # cs = pre @ sub @ suf" by blast
    show "includes_js (c # cs) sub"
    proof (cases pre)
      case Nil
      with e have "startsWith (c # cs) sub" by (auto simp: startsWith_iff)
      then show ?thesis by simp
    next
      case (Cons a pre')
      with e have "cs = pre' @ sub @ suf" by simp
      then have "includes_js cs sub" using Cons.IH by blast
      then show ?thesis by simp
    qed
  qed
qed

lemma split_js_not_Nil: "split_js sep s \<noteq> []"
  by (induction s) (auto split: list.splits)

lemma split_js_at_sep: "sep \<notin> set a \<Longrightarrow> split_js sep (a @ sep # b) = a # split_js sep b"
  by (induction a) auto

lemma hd_split_js: "hd (split_js sep s) = takeWhile (\<lambda>c. c \<noteq> sep) s"
  by (induction s) (auto split: list.splits simp: split_js_not_Nil)

lemma split_js_second:
  assumes "sep \<in> set s"
  shows "nth_js (split_js sep s) 1 =
         Some (takeWhile (\<lambda>c. c \<noteq> sep) (tl (dropWhile (\<lambda>c. c \<noteq> sep) s)))"
proof -
  define a where "a = takeWhile (\<lambda>c. c \<noteq> sep) s"
  define b where "b = tl (dropWhile (\<lambda>c. c \<noteq> sep) s)"
  from assms have "dropWhile (\<lambda>c. c \<noteq> sep) s \<noteq> []" by (simp add: dropWhile_eq_Nil_conv)
  moreover from this have "hd (dropWhile (\<lambda>c. c \<noteq> sep) s) = sep"
    using hd_dropWhile [of "\<lambda>c. c \<noteq> sep" s] by simp
  ultimately have d: "dropWhile (\<lambda>c. c \<noteq> sep) s = sep # b"
    unfolding b_def by (cases "dropWhile (\<lambda>c. c \<noteq> sep) s") auto
  have "a @ dropWhile (\<lambda>c. c \<noteq> sep) s = s" unfolding a_def by simp
  then have s: "a @ sep # b = s" unfolding d .
  have na: "sep \<notin> set a" unfolding a_def by (auto dest: set_takeWhileD)
  have "split_js sep (a @ sep # b) = a # split_js sep b"
    using na by (rule split_js_at_sep)
  then have sp: "split_js sep s = a # split_js sep b" unfolding s .
  obtain w ws where w: "split_js sep b = w # ws"
    using split_js_not_Nil [of sep b] by (cases "split_js sep b") auto
  have "w = hd (split_js sep b)" unfolding w by simp
  then have wb: "w = takeWhile (\<lambda>c. c \<noteq> sep) b" by (simp add: hd_split_js)
  have "nth_js (split_js sep s) 1 = Some w"
    unfolding sp w by (simp add: nth_js_def)
  then show ?thesis unfolding wb b_def .
qed

lemma has_sentinel_equals: "has_sentinel line \<Longrightarrow> CHR ''='' \<in> set line"
  by (auto simp: has_sentinel_def includes_js_iff)

lemma sentinel_contract_id:
  "has_sentinel line \<Longrightarrow>
   nth_js (split_js CHR ''='' line) 1 = Some (text_between_equals line)"
  unfolding text_between_equals_def text_after_first_equals_def
  by (rule split_js_second) (rule has_sentinel_equals)

subsection \<open>The loop over the lines of a chunk\<close>

lemma for_lines_sentinel:
  "has_sentinel l \<Longrightarrow>
   for_lines (l # rest) c s = (Sentinel_line (Some (text_between_equals l)), c, s)"
  using sentinel_contract_id [of l] by (simp add: has_sentinel_def)

lemma for_lines_error:
  "\<not> has_sentinel l \<Longrightarrow> is_error_line l \<Longrightarrow>
   for_lines (l # rest) c s = (Thrown (new_Error (payload l)), c, s)"
  by (simp add: has_sentinel_def is_error_line_def is_data_line_def payload_def Let_def)

lemma for_lines_keep:
  "keeps_reading l \<Longrightarrow>
   for_lines (l # rest) c s =
     (if is_data_line l
      then for_lines rest (c @ payload l) (s\<lparr>streamingContent := c @ payload l\<rparr>)
      else for_lines rest c s)"
  by (simp add: keeps_reading_def has_sentinel_def is_error_line_def is_data_line_def
      payload_def Let_def)

lemma line_cases:
  obtains (sentinel) "has_sentinel l"
  | (error) "\<not> has_sentinel l" "is_error_line l"
  | (keep) "keeps_reading l"
  by (auto simp: keeps_reading_def)

declare for_lines.simps(2) [simp del]

lemma data_payloads_Nil: "data_payloads [] = []"
  by (simp add: data_payloads_def)

lemma data_payloads_Cons:
  "data_payloads (l # ls) = (if is_data_line l then payload l @ data_payloads ls else data_payloads ls)"
  by (simp add: data_payloads_def)

lemma data_payloads_no_data: "filter is_data_line ls = [] \<Longrightarrow> data_payloads ls = []"
  by (simp add: data_payloads_def)

lemma data_payloads_append: "data_payloads (xs @ ys) = data_payloads xs @ data_payloads ys"
  by (simp add: data_payloads_def)

text \<open>
  The loop in one equation: how it ends is decided by the first line that does not keep
  it reading; the local \<open>content\<close> grows by the payloads of the data lines before that
  line, and \<open>streamingContent\<close> is set to it if there was such a data line.
\<close>

lemma for_lines_eq:
  "for_lines ls c s =
     ((case dropWhile keeps_reading ls of
         [] \<Rightarrow> Next_read
       | l # rest \<Rightarrow>
           if has_sentinel l then Sentinel_line (Some (text_between_equals l))
           else Thrown (new_Error (payload l))),
      c @ data_payloads (takeWhile keeps_reading ls),
      (if filter is_data_line (takeWhile keeps_reading ls) = [] then s
       else s\<lparr>streamingContent := c @ data_payloads (takeWhile keeps_reading ls)\<rparr>))"
proof (induction ls arbitrary: c s)
  case Nil
  then show ?case by (simp add: data_payloads_Nil)
next
  case (Cons l ls)
  show ?case
  proof (cases l rule: line_cases)
    case sentinel
    then show ?thesis
      by (simp add: for_lines_sentinel keeps_reading_def data_payloads_Nil)
  next
    case error
    then show ?thesis
      by (simp add: for_lines_error keeps_reading_def data_payloads_Nil)
  next
    case keep
    show ?thesis
      unfolding for_lines_keep [OF keep] using keep
      by (simp add: Cons.IH data_payloads_Cons data_payloads_no_data)
  qed
qed

lemma takeWhile_all: "list_all P xs \<Longrightarrow> takeWhile P xs = xs"
  by (induction xs) simp_all

lemma dropWhile_all: "list_all P xs \<Longrightarrow> dropWhile P xs = []"
  by (induction xs) simp_all

lemma takeWhile_stop: "list_all P pre \<Longrightarrow> \<not> P x \<Longrightarrow> takeWhile P (pre @ x # post) = pre"
  by (induction pre) simp_all

lemma dropWhile_stop:
  "list_all P pre \<Longrightarrow> \<not> P x \<Longrightarrow> dropWhile P (pre @ x # post) = x # post"
  by (induction pre) simp_all

text \<open>The state after the lines \<open>pre\<close>, all of which keep the loop reading.\<close>

lemma for_lines_state_synced:
  assumes "streamingContent s = c"
  shows "(if filter is_data_line pre = [] then s
          else s\<lparr>streamingContent := c @ data_payloads pre\<rparr>) =
         s\<lparr>streamingContent := c @ data_payloads pre\<rparr>"
proof (cases "filter is_data_line pre = []")
  case True
  then have "data_payloads pre = []" by (rule data_payloads_no_data)
  with True assms show ?thesis by simp
next
  case False
  then show ?thesis by simp
qed

lemma for_lines_all_keep:
  assumes "list_all keeps_reading ls" "streamingContent s = c"
  shows "for_lines ls c s =
         (Next_read, c @ data_payloads ls, s\<lparr>streamingContent := c @ data_payloads ls\<rparr>)"
  unfolding for_lines_eq takeWhile_all [OF assms(1)] dropWhile_all [OF assms(1)]
    for_lines_state_synced [OF assms(2)]
  by simp

lemma for_lines_at_sentinel:
  assumes "list_all keeps_reading pre" "has_sentinel line" "streamingContent s = c"
  shows "for_lines (pre @ line # post) c s =
         (Sentinel_line (Some (text_between_equals line)), c @ data_payloads pre,
          s\<lparr>streamingContent := c @ data_payloads pre\<rparr>)"
proof -
  have nk: "\<not> keeps_reading line"
    using assms(2) by (simp add: keeps_reading_def)
  show ?thesis
    unfolding for_lines_eq takeWhile_stop [OF assms(1) nk] dropWhile_stop [OF assms(1) nk]
      for_lines_state_synced [OF assms(3)]
    using assms(2) by simp
qed

lemma for_lines_at_error:
  assumes "list_all keeps_reading pre" "\<not> has_sentinel line" "is_error_line line"
    "streamingContent s = c"
  shows "for_lines (pre @ line # post) c s =
         (Thrown (new_Error (payload line)), c @ data_payloads pre,
          s\<lparr>streamingContent := c @ data_payloads pre\<rparr>)"
proof -
  have nk: "\<not> keeps_reading line"
    using assms(3) by (simp add: keeps_reading_def)
  show ?thesis
    unfolding for_lines_eq takeWhile_stop [OF assms(1) nk] dropWhile_stop [OF assms(1) nk]
      for_lines_state_synced [OF assms(4)]
    using assms(2) by simp
qed

text \<open>Whatever the lines, the loop touches no cell but \<open>streamingContent\<close>.\<close>

lemma for_lines_frame:
  "\<exists>t. snd (snd (for_lines ls c s)) = s\<lparr>streamingContent := t\<rparr>"
proof (cases "filter is_data_line (takeWhile keeps_reading ls) = []")
  case True
  then have "snd (snd (for_lines ls c s)) = s\<lparr>streamingContent := streamingContent s\<rparr>"
    by (simp add: for_lines_eq)
  then show ?thesis ..
next
  case False
  then have "snd (snd (for_lines ls c s)) =
      s\<lparr>streamingContent := c @ data_payloads (takeWhile keeps_reading ls)\<rparr>"
    by (simp add: for_lines_eq)
  then show ?thesis ..
qed

subsection \<open>Steps of a session\<close>

lemma run_Nil [simp]: "run s [] = s"
  by (simp add: run_def)

lemma run_Cons [simp]: "run s (ev # evs) = run (step s ev) evs"
  by (simp add: run_def)

lemma list_update_last: "xs \<noteq> [] \<Longrightarrow> xs[length xs - 1 := h] = butlast xs @ [h]"
  by (induction xs rule: rev_induct) simp_all

lemma resume_finished: "phase h = Finished \<Longrightarrow> resume out h s = (h, s)"
  by (simp add: resume_def)

lemma step_settled_finished:
  assumes "i < length (handlers s)" "phase (handlers s ! i) = Finished"
  shows "step s (Settled i out) = s"
  using assms by (simp add: step_def resume_finished)

lemma step_settled_beyond: "\<not> i < length (handlers s) \<Longrightarrow> step s (Settled i out) = s"
  by (simp add: step_def)

lemma step_to_latest:
  assumes "handlers s \<noteq> []"
  shows "step s (to_latest s out) =
         (snd (resume out (latest s) s))
           \<lparr>handlers := butlast (handlers s) @ [fst (resume out (latest s) s)]\<rparr>"
proof -
  have i: "length (handlers s) - Suc 0 < length (handlers s)"
    using assms by simp
  have l: "handlers s ! (length (handlers s) - Suc 0) = latest s"
    using assms by (simp add: latest_def last_conv_nth)
  have u: "(handlers s)[length (handlers s) - Suc 0 := h] = butlast (handlers s) @ [h]" for h
    using list_update_last [OF assms, of h] by simp
  show ?thesis
    using i by (simp add: step_def to_latest_def l u split: prod.splits)
qed

lemma latest_update [simp]: "latest (s\<lparr>handlers := xs @ [h]\<rparr>) = h"
  by (simp add: latest_def)

text \<open>A chunk read by a call that is reading, by what its lines are.\<close>

lemma resume_chunk_keep:
  assumes "phase h = Reading" "streamingContent s = content h"
    "list_all keeps_reading (split_js CHR 0x0A chunk)"
  shows "resume (Read_chunk chunk) h s =
         (h\<lparr>content := content h @ data_payloads (split_js CHR 0x0A chunk)\<rparr>,
          s\<lparr>streamingContent := content h @ data_payloads (split_js CHR 0x0A chunk)\<rparr>)"
  using assms(1) by (simp add: resume_def for_lines_all_keep [OF assms(3,2)])

lemma resume_chunk_sentinel:
  assumes "phase h = Reading" "streamingContent s = content h"
    "split_js CHR 0x0A chunk = pre @ line # post" "list_all keeps_reading pre"
    "has_sentinel line"
  shows "resume (Read_chunk chunk) h s =
         (h\<lparr>phase := Fetching_full, content := content h @ data_payloads pre\<rparr>,
          s\<lparr>streamingContent := content h @ data_payloads pre,
            requests := requests s @ [getFullContract_request (Some (text_between_equals line))]\<rparr>)"
  using assms(1)
  by (simp add: resume_def assms(3) for_lines_at_sentinel [OF assms(4,5,2)])

lemma resume_chunk_error:
  assumes "phase h = Reading" "streamingContent s = content h"
    "split_js CHR 0x0A chunk = pre @ line # post" "list_all keeps_reading pre"
    "\<not> has_sentinel line" "is_error_line line"
  shows "resume (Read_chunk chunk) h s =
         (h\<lparr>phase := Finished, content := content h @ data_payloads pre\<rparr>,
          catch_finally (new_Error (payload line))
            (s\<lparr>streamingContent := content h @ data_payloads pre\<rparr>))"
  using assms(1)
  by (simp add: resume_def assms(3) for_lines_at_error [OF assms(4,5,6,2)])

lemma not_all_keep_split:
  assumes "\<not> list_all keeps_reading ls"
  obtains pre line post where "ls = pre @ line # post" "list_all keeps_reading pre"
    "\<not> keeps_reading line"
proof -
  from assms have "\<exists>x\<in>set ls. \<not> keeps_reading x" by (simp add: list_all_iff)
  then obtain pre line post where "ls = pre @ line # post" "\<not> keeps_reading line"
    "\<forall>x\<in>set pre. \<not> \<not> keeps_reading x"
    using split_list_first_prop [of ls "\<lambda>x. \<not> keeps_reading x"] by blast
  then show ?thesis using that by (simp add: list_all_iff)
qed

lemma error_payload_not_empty: "startsWith p ''Error:'' \<Longrightarrow> p \<noteq> []"
  by (auto simp: startsWith_def)

lemma is_error_line_payload: "is_error_line l \<Longrightarrow> payload l \<noteq> []"
  by (auto simp: is_error_line_def dest: error_payload_not_empty)

lemma is_full_request_getFull [simp]: "is_full_request (getFullContract_request cid)"
  by (simp add: is_full_request_def getFullContract_request_def)

subsection \<open>The invariant\<close>

lemma session_invI:
  assumes "requests s = requests s0 @ Fetch ''/api/generate-contract'' formData True # rs"
    and "handlers s \<noteq> []" and "butlast (handlers s) = handlers s0"
    and "abortController s \<noteq> None" and "phase_inv (latest s) rs s"
  shows "session_inv s0 formData s"
  unfolding session_inv_def using assms by blast

lemma session_inv_start:
  "quiescent s0 \<Longrightarrow> session_inv s0 formData (handleGenerateContract_start formData s0)"
  by (rule session_invI [where rs = "[]"])
     (simp_all add: handleGenerateContract_start_def phase_inv_def latest_def quiescent_def)

lemma inv_latest_awaiting:
  assumes "session_inv s0 formData s" "phase (latest s) = Awaiting_response"
  shows "session_inv s0 formData (step s (to_latest s out))"
proof -
  from assms(1) obtain rs where
    R: "requests s = requests s0 @ Fetch ''/api/generate-contract'' formData True # rs"
    and H: "handlers s \<noteq> []" "butlast (handlers s) = handlers s0"
    and A: "abortController s \<noteq> None" and P: "phase_inv (latest s) rs s"
    unfolding session_inv_def by blast
  from P assms(2) have f: "rs = []" "contractData s = JNull" "streamingContent s = []"
    "isGenerating s" "downloads s = 0"
    by (simp_all add: phase_inv_def)
  show ?thesis
    unfolding step_to_latest [OF H(1)]
    by (rule session_invI [where rs = rs]; cases out)
       (use R H A f assms(2) in
         \<open>simp_all add: resume_def catch_finally_def phase_inv_def\<close>)
qed

lemma inv_latest_reading_chunk:
  assumes "session_inv s0 formData s" "phase (latest s) = Reading"
  shows "session_inv s0 formData (step s (to_latest s (Read_chunk chunk)))"
proof -
  from assms(1) obtain rs where
    R: "requests s = requests s0 @ Fetch ''/api/generate-contract'' formData True # rs"
    and H: "handlers s \<noteq> []" "butlast (handlers s) = handlers s0"
    and A: "abortController s \<noteq> None" and P: "phase_inv (latest s) rs s"
    unfolding session_inv_def by blast
  from P assms(2) have f: "rs = []" "contractData s = JNull"
    "streamingContent s = content (latest s)" "isGenerating s" "downloads s = 0"
    by (simp_all add: phase_inv_def)
  let ?ls = "split_js CHR 0x0A chunk"
  show ?thesis
  proof (cases "list_all keeps_reading ?ls")
    case True
    show ?thesis
      unfolding step_to_latest [OF H(1)] resume_chunk_keep [OF assms(2) f(3) True]
      by (rule session_invI [where rs = rs])
         (use R H A f assms(2) in \<open>simp_all add: phase_inv_def\<close>)
  next
    case False
    then obtain pre line post where ls: "?ls = pre @ line # post"
      and pre: "list_all keeps_reading pre" and nk: "\<not> keeps_reading line"
      by (rule not_all_keep_split)
    show ?thesis
    proof (cases "has_sentinel line")
      case True
      show ?thesis
        unfolding step_to_latest [OF H(1)]
          resume_chunk_sentinel [OF assms(2) f(3) ls pre True]
        by (rule session_invI
              [where rs = "[getFullContract_request (Some (text_between_equals line))]"])
           (use R H A f in \<open>auto simp: phase_inv_def\<close>)
    next
      case False
      with nk have e: "is_error_line line" by (simp add: keeps_reading_def)
      show ?thesis
        unfolding step_to_latest [OF H(1)]
          resume_chunk_error [OF assms(2) f(3) ls pre False e]
        by (rule session_invI [where rs = rs])
           (use R H A f in \<open>simp_all add: phase_inv_def catch_finally_def\<close>)
    qed
  qed
qed

lemma inv_latest_reading:
  assumes "session_inv s0 formData s" "phase (latest s) = Reading"
  shows "session_inv s0 formData (step s (to_latest s out))"
proof (cases "\<exists>chunk. out = Read_chunk chunk")
  case True
  then show ?thesis using inv_latest_reading_chunk [OF assms] by blast
next
  case False
  from assms(1) obtain rs where
    R: "requests s = requests s0 @ Fetch ''/api/generate-contract'' formData True # rs"
    and H: "handlers s \<noteq> []" "butlast (handlers s) = handlers s0"
    and A: "abortController s \<noteq> None" and P: "phase_inv (latest s) rs s"
    unfolding session_inv_def by blast
  from P assms(2) have f: "rs = []" "contractData s = JNull"
    "streamingContent s = content (latest s)" "isGenerating s" "downloads s = 0"
    by (simp_all add: phase_inv_def)
  show ?thesis
    unfolding step_to_latest [OF H(1)]
    by (rule session_invI [where rs = rs]; cases out)
       (use R H A f assms(2) False in
         \<open>simp_all add: resume_def catch_finally_def return_finally_def phase_inv_def\<close>)
qed

lemma inv_latest_fetching:
  assumes "session_inv s0 formData s" "phase (latest s) = Fetching_full"
  shows "session_inv s0 formData (step s (to_latest s out))"
proof -
  from assms(1) obtain rs where
    R: "requests s = requests s0 @ Fetch ''/api/generate-contract'' formData True # rs"
    and H: "handlers s \<noteq> []" "butlast (handlers s) = handlers s0"
    and A: "abortController s \<noteq> None" and P: "phase_inv (latest s) rs s"
    unfolding session_inv_def by blast
  from P assms(2) obtain cid where f: "rs = [getFullContract_request cid]"
    "contractData s = JNull" "downloads s = 0"
    by (auto simp: phase_inv_def)
  show ?thesis
    unfolding step_to_latest [OF H(1)]
    by (rule session_invI [where rs = rs]; cases out)
       (use R H A f assms(2) in
         \<open>auto simp: resume_def return_finally_def phase_inv_def\<close>)
qed

lemma step_latest_finished:
  assumes "handlers s \<noteq> []" "phase (latest s) = Finished"
  shows "step s (to_latest s out) = s"
proof -
  have "length (handlers s) - 1 < length (handlers s)" using assms(1) by simp
  moreover have "phase (handlers s ! (length (handlers s) - 1)) = Finished"
    using assms by (simp add: latest_def last_conv_nth)
  ultimately show ?thesis
    unfolding to_latest_def by (rule step_settled_finished)
qed

lemma inv_latest:
  assumes "session_inv s0 formData s"
  shows "session_inv s0 formData (step s (to_latest s out))"
proof (cases "phase (latest s)")
  case Awaiting_response
  with assms show ?thesis by (rule inv_latest_awaiting)
next
  case Reading
  with assms show ?thesis by (rule inv_latest_reading)
next
  case Fetching_full
  with assms show ?thesis by (rule inv_latest_fetching)
next
  case Finished
  from assms have "handlers s \<noteq> []" by (auto simp: session_inv_def)
  then have "step s (to_latest s out) = s" using Finished by (rule step_latest_finished)
  with assms show ?thesis by simp
qed

lemma quiescent_nth:
  assumes "quiescent s0" "i < length (handlers s0)"
  shows "phase (handlers s0 ! i) = Finished"
proof -
  from assms(1) have "\<forall>h\<in>set (handlers s0). phase h = Finished"
    by (simp add: quiescent_def filter_empty_conv)
  with assms(2) show ?thesis by simp
qed

lemma inv_settled:
  assumes "quiescent s0" "session_inv s0 formData s"
  shows "session_inv s0 formData (step s (Settled i out))"
proof -
  from assms(2) have H: "handlers s \<noteq> []" "butlast (handlers s) = handlers s0"
    by (auto simp: session_inv_def)
  consider "\<not> i < length (handlers s)" | "i = length (handlers s) - 1"
    | "i < length (handlers s) - 1"
    by linarith
  then show ?thesis
  proof cases
    case 1
    then show ?thesis using assms(2) by (simp add: step_settled_beyond)
  next
    case 2
    then have "Settled i out = to_latest s out" by (simp add: to_latest_def)
    then show ?thesis using inv_latest [OF assms(2)] by simp
  next
    case 3
    then have i0: "i < length (handlers s0)"
      using H(2) [symmetric] by simp
    have "handlers s ! i = butlast (handlers s) ! i"
      using 3 by (simp add: nth_butlast)
    then have "phase (handlers s ! i) = Finished"
      using quiescent_nth [OF assms(1) i0] H(2) by simp
    moreover have "i < length (handlers s)" using 3 by simp
    ultimately have "step s (Settled i out) = s" by (simp add: step_settled_finished)
    then show ?thesis using assms(2) by simp
  qed
qed

lemma inv_stop:
  assumes "session_inv s0 formData s"
  shows "session_inv s0 formData (step s Stop_clicked)"
proof -
  from assms(1) obtain rs where
    R: "requests s = requests s0 @ Fetch ''/api/generate-contract'' formData True # rs"
    and H: "handlers s \<noteq> []" "butlast (handlers s) = handlers s0"
    and A: "abortController s \<noteq> None" and P: "phase_inv (latest s) rs s"
    unfolding session_inv_def by blast
  show ?thesis
    by (rule session_invI [where rs = rs]; cases "phase (latest s)")
       (use R H A P in
         \<open>auto simp: step_def stop_clicked_def handleStopGeneration_def catch_finally_def
            phase_inv_def latest_def\<close>)
qed

lemma handleDownload_not_full:
  "handleDownload s = Some r \<Longrightarrow> \<not> is_full_request r \<and> truthy (contractData s)"
  by (auto simp: handleDownload_def is_full_request_def split: if_splits)

lemma inv_download_clicked:
  assumes "session_inv s0 formData s"
  shows "session_inv s0 formData (step s Download_clicked)"
proof (cases "handleDownload s")
  case None
  then show ?thesis using assms by (simp add: step_def)
next
  case (Some r)
  from assms(1) obtain rs where
    R: "requests s = requests s0 @ Fetch ''/api/generate-contract'' formData True # rs"
    and H: "handlers s \<noteq> []" "butlast (handlers s) = handlers s0"
    and A: "abortController s \<noteq> None" and P: "phase_inv (latest s) rs s"
    unfolding session_inv_def by blast
  from handleDownload_not_full [OF Some] have n: "\<not> is_full_request r" "contractData s \<noteq> JNull"
    by auto
  show ?thesis
    by (rule session_invI [where rs = "rs @ [r]"]; cases "phase (latest s)")
       (use R H A P n in \<open>auto simp: step_def Some phase_inv_def latest_def\<close>)
qed

lemma inv_download_settled:
  assumes "session_inv s0 formData s"
  shows "session_inv s0 formData (step s (Download_failed err))"
    and "session_inv s0 formData (step s Download_done)"
proof -
  from assms(1) obtain rs where
    R: "requests s = requests s0 @ Fetch ''/api/generate-contract'' formData True # rs"
    and H: "handlers s \<noteq> []" "butlast (handlers s) = handlers s0"
    and A: "abortController s \<noteq> None" and P: "phase_inv (latest s) rs s"
    unfolding session_inv_def by blast
  show "session_inv s0 formData (step s (Download_failed err))"
    by (rule session_invI [where rs = rs]; cases "phase (latest s)")
       (use R H A P in \<open>auto simp: step_def phase_inv_def latest_def\<close>)
  show "session_inv s0 formData (step s Download_done)"
    by (rule session_invI [where rs = rs]; cases "phase (latest s)")
       (use R H A P in \<open>auto simp: step_def phase_inv_def latest_def\<close>)
qed

lemma step_inv:
  assumes "quiescent s0" "session_inv s0 formData s" "\<not> is_Submit ev"
  shows "session_inv s0 formData (step s ev)"
  using assms inv_settled inv_stop inv_download_clicked inv_download_settled
  by (cases ev) simp_all

lemma no_submit_Cons: "no_submit (ev # evs) \<longleftrightarrow> \<not> is_Submit ev \<and> no_submit evs"
  by (simp add: no_submit_def)

lemma no_submit_Nil: "no_submit []"
  by (simp add: no_submit_def)

lemma run_inv:
  assumes "quiescent s0"
  shows "session_inv s0 formData s \<Longrightarrow> no_submit evs \<Longrightarrow> session_inv s0 formData (run s evs)"
proof (induction evs arbitrary: s)
  case Nil
  then show ?case by simp
next
  case (Cons ev evs)
  then have "\<not> is_Submit ev" "no_submit evs" by (simp_all add: no_submit_Cons)
  with Cons.IH [OF step_inv [OF assms Cons.prems(1)]] show ?case by simp
qed

lemma session_inv_session:
  assumes "quiescent s0" "no_submit evs"
  shows "session_inv s0 formData (session s0 formData evs)"
  unfolding session_def
  using assms(1) session_inv_start [OF assms(1)] assms(2) by (rule run_inv)

text \<open>
  A state in which nothing is pending, nothing is generating and no document is stored
  stays as it is until the form submits.
\<close>

lemma idle_step:
  assumes "quiescent s" "\<not> isGenerating s" "\<not> truthy (contractData s)" "\<not> is_Submit ev"
  shows "step s ev = s"
proof (cases ev)
  case (Settled i out)
  show ?thesis
  proof (cases "i < length (handlers s)")
    case True
    then show ?thesis
      unfolding Settled using quiescent_nth [OF assms(1) True] by (rule step_settled_finished)
  next
    case False
    then show ?thesis unfolding Settled by (rule step_settled_beyond)
  qed
qed (use assms in \<open>simp_all add: step_def handleDownload_def quiescent_def\<close>)

lemma idle_run:
  assumes "quiescent s" "\<not> isGenerating s" "\<not> truthy (contractData s)" "no_submit evs"
  shows "run s evs = s"
  using assms(4)
proof (induction evs)
  case Nil
  then show ?case by simp
next
  case (Cons ev evs)
  then have "\<not> is_Submit ev" "no_submit evs" by (simp_all add: no_submit_Cons)
  with Cons.IH idle_step [OF assms(1,2,3)] show ?case by simp
qed

subsection \<open>The text shown while a call reads\<close>

lemma issued_since_eq: "requests s = requests s0 @ rs \<Longrightarrow> issued_since s0 s = rs"
  by (simp add: issued_since_def)

lemma step_latest_noop:
  assumes "handlers s \<noteq> []" "resume out (latest s) s = (latest s, s)"
  shows "step s (to_latest s out) = s"
proof -
  have "butlast (handlers s) @ [latest s] = handlers s"
    using assms(1) by (simp add: latest_def)
  then show ?thesis
    unfolding step_to_latest [OF assms(1)] assms(2) by simp
qed

text \<open>
  Chunks that reach a call which is no longer reading change nothing.
\<close>

lemma chunks_ignored:
  assumes "handlers s \<noteq> []"
    and "phase (latest s) = Fetching_full \<or> phase (latest s) = Finished"
    and "n = length (handlers s) - 1"
  shows "run s (map (\<lambda>c. Settled n (Read_chunk c)) cs) = s"
proof (induction cs)
  case Nil
  show ?case by simp
next
  case (Cons c cs)
  have "resume (Read_chunk c) (latest s) s = (latest s, s)"
    using assms(2) by (auto simp: resume_def)
  with assms(1) have "step s (to_latest s (Read_chunk c)) = s"
    by (rule step_latest_noop)
  then have "step s (Settled n (Read_chunk c)) = s"
    by (simp add: to_latest_def assms(3))
  with Cons.IH show ?case by simp
qed

text \<open>
  The text shown while a call reads: the payloads of the data lines of the chunks, each
  chunk split on its own, up to the first line that ends the reading.
\<close>

lemma reading_chunks:
  assumes "handlers s \<noteq> []" "phase (latest s) = Reading"
    "streamingContent s = content (latest s)" "n = length (handlers s) - 1"
  shows "streamingContent (run s (map (\<lambda>c. Settled n (Read_chunk c)) cs)) =
           content (latest s) @ data_payloads (takeWhile keeps_reading (chunk_lines cs))"
  using assms
proof (induction cs arbitrary: s)
  case Nil
  then show ?case by (simp add: chunk_lines_def data_payloads_Nil)
next
  case (Cons c cs)
  let ?ls = "split_js CHR 0x0A c"
  define s1 where "s1 = step s (Settled n (Read_chunk c))"
  have ev: "Settled n (Read_chunk c) = to_latest s (Read_chunk c)"
    by (simp add: to_latest_def Cons.prems(4))
  have cl: "chunk_lines (c # cs) = ?ls @ chunk_lines cs"
    by (simp add: chunk_lines_def)
  have r: "run s (map (\<lambda>c. Settled n (Read_chunk c)) (c # cs)) =
           run s1 (map (\<lambda>c. Settled n (Read_chunk c)) cs)"
    by (simp add: s1_def)
  show ?case
  proof (cases "list_all keeps_reading ?ls")
    case True
    have st: "s1 = (s\<lparr>streamingContent := content (latest s) @ data_payloads ?ls\<rparr>)
        \<lparr>handlers := butlast (handlers s)
           @ [(latest s)\<lparr>content := content (latest s) @ data_payloads ?ls\<rparr>]\<rparr>"
      unfolding s1_def ev step_to_latest [OF Cons.prems(1)]
        resume_chunk_keep [OF Cons.prems(2,3) True]
      by simp
    have p: "handlers s1 \<noteq> []" "phase (latest s1) = Reading"
      "streamingContent s1 = content (latest s1)"
      "n = length (handlers s1) - 1"
      unfolding st using Cons.prems(1,2,4) by simp_all
    have c1: "content (latest s1) = content (latest s) @ data_payloads ?ls"
      unfolding st by simp
    have tw: "takeWhile keeps_reading (?ls @ chunk_lines cs) =
              ?ls @ takeWhile keeps_reading (chunk_lines cs)"
      using True by (simp add: list_all_iff)
    have "streamingContent (run s1 (map (\<lambda>c. Settled n (Read_chunk c)) cs)) =
          content (latest s1) @ data_payloads (takeWhile keeps_reading (chunk_lines cs))"
      using p by (rule Cons.IH)
    then show ?thesis
      unfolding r c1 cl tw by (simp add: data_payloads_append)
  next
    case False
    then obtain pre line post where ls: "?ls = pre @ line # post"
      and pre: "list_all keeps_reading pre" and nk: "\<not> keeps_reading line"
      by (rule not_all_keep_split)
    have tw: "takeWhile keeps_reading (chunk_lines (c # cs)) = pre"
      unfolding cl ls using takeWhile_stop [OF pre nk, of "post @ chunk_lines cs"] by simp
    have q: "handlers s1 \<noteq> [] \<and>
          (phase (latest s1) = Fetching_full \<or> phase (latest s1) = Finished) \<and>
          length (handlers s1) = length (handlers s) \<and>
          streamingContent s1 = content (latest s) @ data_payloads pre"
    proof (cases "has_sentinel line")
      case True
      show ?thesis
        unfolding s1_def ev step_to_latest [OF Cons.prems(1)]
          resume_chunk_sentinel [OF Cons.prems(2,3) ls pre True]
        using Cons.prems(1) by simp
    next
      case False
      with nk have e: "is_error_line line" by (simp add: keeps_reading_def)
      show ?thesis
        unfolding s1_def ev step_to_latest [OF Cons.prems(1)]
          resume_chunk_error [OF Cons.prems(2,3) ls pre False e]
        using Cons.prems(1) by (simp add: catch_finally_def)
    qed
    then have "run s1 (map (\<lambda>c. Settled n (Read_chunk c)) cs) = s1"
      using Cons.prems(4) by (intro chunks_ignored) simp_all
    with q show ?thesis
      unfolding r tw by simp
  qed
qed

text \<open>
  What the client shows of a stream, in terms of the lines the loop sees: the chunks of
  the response, each split at its newlines. The text shown is the payloads of the data
  lines among them, joined in arrival order, up to the first line with the sentinel marker
  or an error payload. A line of the stream counts as received only where it lies within
  one chunk.
\<close>

lemma streamed_content_is_payloads_of_chunk_lines:
  "streamingContent
     (session s0 formData
        (Settled (length (handlers s0)) Response_stream
           # map (\<lambda>c. Settled (length (handlers s0)) (Read_chunk c)) chunks)) =
   concat (map payload (filter is_data_line (takeWhile keeps_reading (chunk_lines chunks))))"
proof -
  define s1 where "s1 = step (handleGenerateContract_start formData s0)
                          (Settled (length (handlers s0)) Response_stream)"
  have st: "s1 = (handleGenerateContract_start formData s0)
                   \<lparr>handlers := handlers s0 @ [\<lparr>phase = Reading, content = []\<rparr>]\<rparr>"
    by (simp add: s1_def step_def resume_def handleGenerateContract_start_def)
  have p: "handlers s1 \<noteq> []" "phase (latest s1) = Reading"
    "streamingContent s1 = content (latest s1)"
    "length (handlers s0) = length (handlers s1) - 1"
    unfolding st by (simp_all add: handleGenerateContract_start_def)
  have c: "content (latest s1) = []"
    unfolding st by simp
  from reading_chunks [OF p, of chunks]
  show ?thesis
    unfolding c by (simp add: session_def data_payloads_def s1_def)
qed

subsection \<open>The stream protocol\<close>

text \<open>
  A line with the marker, read by any call that is reading, whatever else is going on:
  the call goes on to the retrieval, and the fetch issued carries the text between the
  first two \<open>=\<close> of the line.
\<close>

lemma step_settled_noop:
  assumes "i < length (handlers s)" "resume out (handlers s ! i) s = (handlers s ! i, s)"
  shows "step s (Settled i out) = s"
  using assms by (simp add: step_def)

lemma marker_line_any_call:
  assumes "i < length (handlers s)" and "phase (handlers s ! i) = Reading"
    and "split_js CHR 0x0A chunk = pre @ line # post"
    and "list_all keeps_reading pre" and "has_sentinel line"
  shows "phase (handlers (step s (Settled i (Read_chunk chunk))) ! i) = Fetching_full \<and>
         content (handlers (step s (Settled i (Read_chunk chunk))) ! i) =
           content (handlers s ! i) @ data_payloads pre \<and>
         requests (step s (Settled i (Read_chunk chunk))) =
           requests s @ [getFullContract_request (Some (text_between_equals line))] \<and>
         length (handlers (step s (Settled i (Read_chunk chunk)))) = length (handlers s)"
proof -
  have nk: "\<not> keeps_reading line"
    using assms(5) by (simp add: keeps_reading_def)
  show ?thesis
    using assms(1,2,5)
    by (simp add: step_def resume_def assms(3) for_lines_eq takeWhile_stop [OF assms(4) nk]
        dropWhile_stop [OF assms(4) nk])
qed

text \<open>
  C1. For a sentinel line \<open>[END_OF_DOC=abc]\<close> the retrieval should ask for the contract
  \<open>abc\<close>, the identifier between \<open>=\<close> and \<open>]\<close>. The client stops reading and issues one
  retrieval, but the \<open>contract_id\<close> it sends is \<open>abc]\<close>: \<open>line.split("=")[1]\<close> keeps
  the closing bracket.
\<close>

theorem sentinel_id_keeps_bracket:
  "requests (session initial_state (JObject [])
      [Settled 0 Response_stream, Settled 0 (Read_chunk ''[END_OF_DOC=abc]'')]) =
     [Fetch ''/api/generate-contract'' (JObject []) True,
      Fetch ''/api/generate-contract-full'' (JObject [(''contract_id'', JString ''abc]'')]) False] \<and>
   map phase (handlers (session initial_state (JObject [])
      [Settled 0 Response_stream, Settled 0 (Read_chunk ''[END_OF_DOC=abc]'')])) =
     [Fetching_full]"
  by (simp add: session_def handleGenerateContract_start_def initial_state_def step_def
      resume_def for_lines.simps startsWith_def nth_js_def getFullContract_request_def)

lemmas eval_session =
  session_def handleGenerateContract_start_def initial_state_def step_def resume_def
  for_lines.simps startsWith_def slice_from_def nth_js_def getFullContract_request_def
  catch_finally_def return_finally_def handleStopGeneration_def stop_clicked_def
  new_Error_def AbortError_def handleDownload_def latest_def to_latest_def Let_def

text \<open>
  C2. The displayed partial content should be the payloads of every data line received,
  none dropped. The loop splits each chunk on its own and keeps no remainder: when the
  transport cuts the line \<open>data: hello\<close> after \<open>data: he\<close>, the client shows \<open>he\<close>
  and drops \<open>llo\<close>; when it cuts the line \<open>data: Hello\<close> inside the prefix, the client
  shows nothing. The same text in one chunk is shown in full.
\<close>

theorem cut_line_loses_text:
  "streamingContent (session initial_state (JObject [])
      [Settled 0 Response_stream, Settled 0 (Read_chunk ''data: hello\<newline>'')]) = ''hello'' \<and>
   streamingContent (session initial_state (JObject [])
      [Settled 0 Response_stream, Settled 0 (Read_chunk ''data: he''),
       Settled 0 (Read_chunk ''llo\<newline>'')]) = ''he'' \<and>
   streamingContent (session initial_state (JObject [])
      [Settled 0 Response_stream, Settled 0 (Read_chunk ''da''),
       Settled 0 (Read_chunk ''ta: Hello\<newline>'')]) = []"
  by (simp add: eval_session)

lemma session_facts:
  assumes "quiescent s0" "no_submit evs" "s = session s0 formData evs"
  obtains rs where
    "requests s = requests s0 @ Fetch ''/api/generate-contract'' formData True # rs"
    "handlers s \<noteq> []" "butlast (handlers s) = handlers s0"
    "abortController s \<noteq> None" "phase_inv (latest s) rs s"
  using session_inv_session [OF assms(1,2), of formData] assms(3)
  unfolding session_inv_def by blast

lemma quiescent_after:
  assumes "quiescent s0" "butlast (handlers s) = handlers s0" "handlers s \<noteq> []"
    "phase h = Finished" "downloads s' = 0" "handlers s' = butlast (handlers s) @ [h]"
  shows "quiescent s'"
  using assms by (simp add: quiescent_def)

text \<open>
  C3 (as amended). Take a session that started when nothing was pending (no earlier
  generation and no download) and in which nothing else is submitted. While it is reading
  the stream, let a chunk hold a data line whose payload starts with \<open>Error:\<close>, which
  does not contain \<open>[END_OF_DOC=\<close>, and before which no line of the chunk ends the
  reading. Then the session ends in the errored state: the payload is the error message
  shown, \<open>isGenerating\<close> is false, the payload is not appended to the displayed content,
  the generation request is the only fetch the session has issued, and no contract is
  stored; and the state stays as it is until the form submits again.
\<close>

theorem error_line_ends_session:
  assumes "quiescent s0" and "no_submit evs" and "s = session s0 formData evs"
    and "phase (latest s) = Reading"
    and "split_js CHR 0x0A chunk = pre @ line # post"
    and "list_all keeps_reading pre"
    and "is_data_line line" and "startsWith (payload line) ''Error:''"
    and "\<not> has_sentinel line"
    and "s' = step s (to_latest s (Read_chunk chunk))"
  shows "phase (latest s') = Finished \<and>
         \<not> isGenerating s' \<and>
         error s' = Some (payload line) \<and>
         error_box (render_generator s') = Some (payload line) \<and>
         streamingContent s' = streamingContent s @ data_payloads pre \<and>
         issued_since s0 s' = [Fetch ''/api/generate-contract'' formData True] \<and>
         contractData s' = JNull \<and>
         (\<forall>later. no_submit later \<longrightarrow> run s' later = s')"
proof -
  obtain rs where
    R: "requests s = requests s0 @ Fetch ''/api/generate-contract'' formData True # rs"
    and H: "handlers s \<noteq> []" "butlast (handlers s) = handlers s0"
    and P: "phase_inv (latest s) rs s"
    using assms(1,2,3) by (rule session_facts)
  from P assms(4) have f: "rs = []" "contractData s = JNull"
    "streamingContent s = content (latest s)" "downloads s = 0"
    by (simp_all add: phase_inv_def)
  have e: "is_error_line line"
    using assms(7,8) by (simp add: is_error_line_def)
  have ne: "payload line \<noteq> []"
    using assms(8) by (rule error_payload_not_empty)
  let ?h = "(latest s)\<lparr>phase := Finished, content := content (latest s) @ data_payloads pre\<rparr>"
  have st: "s' = (catch_finally (new_Error (payload line))
                   (s\<lparr>streamingContent := content (latest s) @ data_payloads pre\<rparr>))
                 \<lparr>handlers := butlast (handlers s) @ [?h]\<rparr>"
    unfolding assms(10) step_to_latest [OF H(1)]
      resume_chunk_error [OF assms(4) f(3) assms(5,6,9) e]
    by simp
  have a: "phase (latest s') = Finished" "\<not> isGenerating s'" "error s' = Some (payload line)"
    "streamingContent s' = streamingContent s @ data_payloads pre"
    "contractData s' = JNull" "downloads s' = 0"
    "handlers s' = butlast (handlers s) @ [?h]"
    "requests s' = requests s0 @ [Fetch ''/api/generate-contract'' formData True]"
    unfolding st using ne f R by (simp_all add: catch_finally_def new_Error_def)
  have b: "error_box (render_generator s') = Some (payload line)"
    using a(3) ne by (simp add: render_generator_def)
  have c: "issued_since s0 s' = [Fetch ''/api/generate-contract'' formData True]"
    using a(8) by (rule issued_since_eq)
  have q: "quiescent s'"
    using assms(1) H(2,1) _ a(6,7) by (rule quiescent_after) simp
  have l: "run s' later = s'" if "no_submit later" for later
    using q a(2) _ that by (rule idle_run) (simp add: a(5))
  from a b c l show ?thesis by blast
qed

text \<open>The theorem at a session that has shown \<open>Hello\<close> and then reads an error line.\<close>

theorem error_line_ends_session_witness:
  "quiescent initial_state \<and>
   no_submit [Settled 0 Response_stream, Settled 0 (Read_chunk ''data: Hello'')] \<and>
   phase (latest (session initial_state (JObject [])
     [Settled 0 Response_stream, Settled 0 (Read_chunk ''data: Hello'')])) = Reading \<and>
   split_js CHR 0x0A ''data:  world\<newline>data: Error: boom\<newline>data: x'' =
     [''data:  world''] @ ''data: Error: boom'' # [''data: x''] \<and>
   list_all keeps_reading [''data:  world''] \<and>
   is_data_line ''data: Error: boom'' \<and>
   startsWith (payload ''data: Error: boom'') ''Error:'' \<and>
   \<not> has_sentinel ''data: Error: boom'' \<and>
   error (session initial_state (JObject [])
     [Settled 0 Response_stream, Settled 0 (Read_chunk ''data: Hello''),
      Settled 0 (Read_chunk ''data:  world\<newline>data: Error: boom\<newline>data: x'')]) =
     Some ''Error: boom'' \<and>
   streamingContent (session initial_state (JObject [])
     [Settled 0 Response_stream, Settled 0 (Read_chunk ''data: Hello''),
      Settled 0 (Read_chunk ''data:  world\<newline>data: Error: boom\<newline>data: x'')]) =
     ''Hello world'' \<and>
   contractData (session initial_state (JObject [])
     [Settled 0 Response_stream, Settled 0 (Read_chunk ''data: Hello''),
      Settled 0 (Read_chunk ''data:  world\<newline>data: Error: boom\<newline>data: x'')]) = JNull \<and>
   issued_since initial_state (session initial_state (JObject [])
     [Settled 0 Response_stream, Settled 0 (Read_chunk ''data: Hello''),
      Settled 0 (Read_chunk ''data:  world\<newline>data: Error: boom\<newline>data: x'')]) =
     [Fetch ''/api/generate-contract'' (JObject []) True]"
proof -
  let ?evs = "[Settled 0 Response_stream, Settled 0 (Read_chunk ''data: Hello'')]"
  let ?s = "session initial_state (JObject []) ?evs"
  let ?chunk = "''data:  world\<newline>data: Error: boom\<newline>data: x''"
  have h1: "quiescent initial_state"
    by (simp add: quiescent_def initial_state_def)
  have h2: "no_submit ?evs"
    by (simp add: no_submit_def)
  have h4: "phase (latest ?s) = Reading"
    and sc: "streamingContent ?s = ''Hello''"
    and tl: "to_latest ?s (Read_chunk ?chunk) = Settled 0 (Read_chunk ?chunk)"
    by (simp_all add: eval_session)
  have h5: "split_js CHR 0x0A ?chunk = [''data:  world''] @ ''data: Error: boom'' # [''data: x'']"
    by simp
  have h6: "list_all keeps_reading [''data:  world'']"
    by (simp add: keeps_reading_def has_sentinel_def is_error_line_def is_data_line_def
        payload_def startsWith_def slice_from_def)
  have h7: "is_data_line ''data: Error: boom''"
    by (simp add: is_data_line_def startsWith_def)
  have h8: "startsWith (payload ''data: Error: boom'') ''Error:''"
    and pl: "payload ''data: Error: boom'' = ''Error: boom''"
    by (simp_all add: payload_def startsWith_def slice_from_def)
  have h9: "\<not> has_sentinel ''data: Error: boom''"
    by (simp add: has_sentinel_def startsWith_def)
  have dp: "data_payloads [''data:  world''] = '' world''"
    by (simp add: data_payloads_def is_data_line_def payload_def startsWith_def slice_from_def)
  have ss: "session initial_state (JObject []) (?evs @ [Settled 0 (Read_chunk ?chunk)]) =
            step ?s (Settled 0 (Read_chunk ?chunk))"
    by (simp add: session_def run_def)
  from error_line_ends_session [OF h1 h2 refl h4 h5 h6 h7 h8 h9 refl]
  have "error (step ?s (Settled 0 (Read_chunk ?chunk))) = Some ''Error: boom'' \<and>
        streamingContent (step ?s (Settled 0 (Read_chunk ?chunk))) = ''Hello world'' \<and>
        contractData (step ?s (Settled 0 (Read_chunk ?chunk))) = JNull \<and>
        issued_since initial_state (step ?s (Settled 0 (Read_chunk ?chunk))) =
          [Fetch ''/api/generate-contract'' (JObject []) True]"
    unfolding tl pl sc dp by simp
  then have "error (session initial_state (JObject []) (?evs @ [Settled 0 (Read_chunk ?chunk)])) =
          Some ''Error: boom'' \<and>
        streamingContent (session initial_state (JObject []) (?evs @ [Settled 0 (Read_chunk ?chunk)])) =
          ''Hello world'' \<and>
        contractData (session initial_state (JObject []) (?evs @ [Settled 0 (Read_chunk ?chunk)])) =
          JNull \<and>
        issued_since initial_state
          (session initial_state (JObject []) (?evs @ [Settled 0 (Read_chunk ?chunk)])) =
          [Fetch ''/api/generate-contract'' (JObject []) True]"
    unfolding ss .
  with h1 h2 h4 h5 h6 h7 h8 h9 show ?thesis by simp
qed

text \<open>
  C3 as stated fails: a data line whose payload starts with \<open>Error:\<close> and which also
  contains \<open>[END_OF_DOC=\<close> is taken for the sentinel. No error is shown and the
  full-document retrieval is issued.
\<close>

theorem error_line_with_marker_retrieves:
  "is_data_line ''data: Error: [END_OF_DOC=7]'' \<and>
   startsWith (payload ''data: Error: [END_OF_DOC=7]'') ''Error:'' \<and>
   map phase (handlers (session initial_state (JObject [])
            [Settled 0 Response_stream, Settled 0 (Read_chunk ''data: Error: [END_OF_DOC=7]'')])) =
     [Fetching_full] \<and>
   error (session initial_state (JObject [])
            [Settled 0 Response_stream, Settled 0 (Read_chunk ''data: Error: [END_OF_DOC=7]'')]) =
     None \<and>
   requests (session initial_state (JObject [])
            [Settled 0 Response_stream, Settled 0 (Read_chunk ''data: Error: [END_OF_DOC=7]'')]) =
     [Fetch ''/api/generate-contract'' (JObject []) True,
      Fetch ''/api/generate-contract-full'' (JObject [(''contract_id'', JString ''7]'')]) False]"
  by (simp add: eval_session is_data_line_def payload_def)

text \<open>
  C4 (as amended). Take a session that started when nothing was pending and in which
  nothing else is submitted. When the user stops it while it is still waiting for the
  response of the generation request or reading its stream (no sentinel line has been
  processed), the controller whose signal went with the generation request is aborted,
  the session ends with the cancellation message and \<open>isGenerating\<close> false,
  \<open>contractData\<close> is null and the generation request is the only fetch the session has
  issued; and the state stays as it is until the form submits again.
\<close>

theorem stop_while_streaming_cancels:
  assumes "quiescent s0" and "no_submit evs" and "s = session s0 formData evs"
    and "phase (latest s) = Awaiting_response \<or> phase (latest s) = Reading"
    and "s' = step s Stop_clicked"
  shows "abortController s' = Some True \<and>
         issued_since s0 s' = [Fetch ''/api/generate-contract'' formData True] \<and>
         phase (latest s') = Finished \<and>
         \<not> isGenerating s' \<and>
         error s' = Some ''Contract generation was cancelled'' \<and>
         error_box (render_generator s') = Some ''Contract generation was cancelled'' \<and>
         contractData s' = JNull \<and>
         (\<forall>later. no_submit later \<longrightarrow> run s' later = s')"
proof -
  obtain rs where
    R: "requests s = requests s0 @ Fetch ''/api/generate-contract'' formData True # rs"
    and H: "handlers s \<noteq> []" "butlast (handlers s) = handlers s0"
    and A: "abortController s \<noteq> None"
    and P: "phase_inv (latest s) rs s"
    using assms(1,2,3) by (rule session_facts)
  from P assms(4) have f: "rs = []" "contractData s = JNull" "isGenerating s" "downloads s = 0"
    by (auto simp: phase_inv_def)
  let ?h = "(latest s)\<lparr>phase := Finished\<rparr>"
  have st: "s' = (catch_finally AbortError (handleStopGeneration s))
                 \<lparr>handlers := butlast (handlers s) @ [?h]\<rparr>"
    unfolding assms(5) using f(3) H(1) assms(4)
    by (simp add: step_def stop_clicked_def latest_def)
  have a: "abortController s' = Some True" "phase (latest s') = Finished" "\<not> isGenerating s'"
    "error s' = Some ''Contract generation was cancelled''"
    "contractData s' = JNull" "downloads s' = 0"
    "handlers s' = butlast (handlers s) @ [?h]"
    "requests s' = requests s0 @ [Fetch ''/api/generate-contract'' formData True]"
    unfolding st using A f R
    by (auto simp: catch_finally_def handleStopGeneration_def AbortError_def)
  have b: "error_box (render_generator s') = Some ''Contract generation was cancelled''"
    using a(4) by (simp add: render_generator_def)
  have c: "issued_since s0 s' = [Fetch ''/api/generate-contract'' formData True]"
    using a(8) by (rule issued_since_eq)
  have q: "quiescent s'"
    using assms(1) H(2,1) _ a(6,7) by (rule quiescent_after) simp
  have l: "run s' later = s'" if "no_submit later" for later
    using q a(3) _ that by (rule idle_run) (simp add: a(5))
  from a b c l show ?thesis by blast
qed

text \<open>The theorem at a session stopped after it has shown \<open>Hello\<close>.\<close>

theorem stop_while_streaming_cancels_witness:
  "quiescent initial_state \<and>
   no_submit [Settled 0 Response_stream, Settled 0 (Read_chunk ''data: Hello'')] \<and>
   phase (latest (session initial_state (JObject [])
     [Settled 0 Response_stream, Settled 0 (Read_chunk ''data: Hello'')])) = Reading \<and>
   abortController (step (session initial_state (JObject [])
     [Settled 0 Response_stream, Settled 0 (Read_chunk ''data: Hello'')]) Stop_clicked) =
     Some True \<and>
   error (step (session initial_state (JObject [])
     [Settled 0 Response_stream, Settled 0 (Read_chunk ''data: Hello'')]) Stop_clicked) =
     Some ''Contract generation was cancelled'' \<and>
   contractData (step (session initial_state (JObject [])
     [Settled 0 Response_stream, Settled 0 (Read_chunk ''data: Hello'')]) Stop_clicked) = JNull \<and>
   issued_since initial_state (step (session initial_state (JObject [])
     [Settled 0 Response_stream, Settled 0 (Read_chunk ''data: Hello'')]) Stop_clicked) =
     [Fetch ''/api/generate-contract'' (JObject []) True] \<and>
   run (step (session initial_state (JObject [])
     [Settled 0 Response_stream, Settled 0 (Read_chunk ''data: Hello'')]) Stop_clicked)
     [Settled 0 (Read_chunk ''data: more''), Stop_clicked, Download_clicked] =
   step (session initial_state (JObject [])
     [Settled 0 Response_stream, Settled 0 (Read_chunk ''data: Hello'')]) Stop_clicked"
proof -
  let ?evs = "[Settled 0 Response_stream, Settled 0 (Read_chunk ''data: Hello'')]"
  let ?s = "session initial_state (JObject []) ?evs"
  have h1: "quiescent initial_state"
    by (simp add: quiescent_def initial_state_def)
  have h2: "no_submit ?evs"
    and h5: "no_submit [Settled 0 (Read_chunk ''data: more''), Stop_clicked, Download_clicked]"
    by (simp_all add: no_submit_def)
  have h3: "phase (latest ?s) = Reading"
    by (simp add: eval_session)
  then have h4: "phase (latest ?s) = Awaiting_response \<or> phase (latest ?s) = Reading" ..
  note r = stop_while_streaming_cancels [OF h1 h2 refl h4 refl]
  from r have a: "abortController (step ?s Stop_clicked) = Some True"
    and b: "error (step ?s Stop_clicked) = Some ''Contract generation was cancelled''"
    and c: "contractData (step ?s Stop_clicked) = JNull"
    and d: "issued_since initial_state (step ?s Stop_clicked) =
              [Fetch ''/api/generate-contract'' (JObject []) True]"
    and e: "\<forall>later. no_submit later \<longrightarrow> run (step ?s Stop_clicked) later = step ?s Stop_clicked"
    by blast+
  from e h5 have f: "run (step ?s Stop_clicked)
      [Settled 0 (Read_chunk ''data: more''), Stop_clicked, Download_clicked] = step ?s Stop_clicked"
    by blast
  from h1 h2 h3 a b c d f show ?thesis by blast
qed

text \<open>
  C4 as stated fails: a stop that arrives after the sentinel line was processed does not
  cancel the retrieval. The session ends without a cancellation message and the fetched
  document is stored.
\<close>

theorem stop_after_sentinel_keeps_document:
  "map phase (handlers (session initial_state (JObject [])
           [Settled 0 Response_stream, Settled 0 (Read_chunk ''[END_OF_DOC=abc]''),
            Stop_clicked])) = [Fetching_full] \<and>
   error (session initial_state (JObject [])
           [Settled 0 Response_stream, Settled 0 (Read_chunk ''[END_OF_DOC=abc]''), Stop_clicked,
            Settled 0 (Full_ok (JObject [(''htmlContent'', JString ''<p>x</p>'')]))]) = None \<and>
   contractData (session initial_state (JObject [])
           [Settled 0 Response_stream, Settled 0 (Read_chunk ''[END_OF_DOC=abc]''), Stop_clicked,
            Settled 0 (Full_ok (JObject [(''htmlContent'', JString ''<p>x</p>'')]))]) =
     JObject [(''htmlContent'', JString ''<p>x</p>'')] \<and>
   requests (session initial_state (JObject [])
           [Settled 0 Response_stream, Settled 0 (Read_chunk ''[END_OF_DOC=abc]''), Stop_clicked,
            Settled 0 (Full_ok (JObject [(''htmlContent'', JString ''<p>x</p>'')]))]) =
     [Fetch ''/api/generate-contract'' (JObject []) True,
      Fetch ''/api/generate-contract-full'' (JObject [(''contract_id'', JString ''abc]'')]) False]"
  by (simp add: eval_session)

text \<open>
  The retrieval of a stopped session is still pending when the form submits again. When
  it answers, the document is stored in the middle of the new session, and the earlier
  call's \<open>finally\<close> switches \<open>isGenerating\<close> off while the new call is still reading.
\<close>

lemma earlier_retrieval_answers_in_new_session:
  "contractData (run initial_state
     [Submit (JObject []), Settled 0 Response_stream,
      Settled 0 (Read_chunk ''[END_OF_DOC=abc]''), Stop_clicked,
      Submit (JObject []), Settled 1 Response_stream, Settled 1 (Read_chunk ''data: Hi''),
      Settled 0 (Full_ok (JObject [(''htmlContent'', JString ''<p>x</p>'')]))]) =
     JObject [(''htmlContent'', JString ''<p>x</p>'')] \<and>
   map phase (handlers (run initial_state
     [Submit (JObject []), Settled 0 Response_stream,
      Settled 0 (Read_chunk ''[END_OF_DOC=abc]''), Stop_clicked,
      Submit (JObject []), Settled 1 Response_stream, Settled 1 (Read_chunk ''data: Hi''),
      Settled 0 (Full_ok (JObject [(''htmlContent'', JString ''<p>x</p>'')]))])) =
     [Finished, Reading] \<and>
   \<not> isGenerating (run initial_state
     [Submit (JObject []), Settled 0 Response_stream,
      Settled 0 (Read_chunk ''[END_OF_DOC=abc]''), Stop_clicked,
      Submit (JObject []), Settled 1 Response_stream, Settled 1 (Read_chunk ''data: Hi''),
      Settled 0 (Full_ok (JObject [(''htmlContent'', JString ''<p>x</p>'')]))])"
  by (simp add: eval_session)

text \<open>
  C9 (as amended). The sentinel is looked for by substring containment before the line is
  parsed as a data line: when a call that is reading is handed a chunk with a line that
  contains \<open>[END_OF_DOC=\<close> anywhere (a data line too), and no line before it in the
  chunk ends the reading, the call stops reading and issues the full-document retrieval.
  The \<open>contract_id\<close> sent is the text between the first \<open>=\<close> of the line and its next
  \<open>=\<close> (or the end of the line); nothing of the line is appended to the content, and
  chunks that arrive later are not read. This holds in every state of the component. In a
  session that started when nothing was pending and in which nothing else is submitted,
  the generation request and this retrieval are then all the session has issued, and the
  text shown is the text shown before with the payloads of the data lines before the
  marker line.
\<close>

theorem marker_anywhere_triggers_retrieval:
  assumes "i < length (handlers s)" and "phase (handlers s ! i) = Reading"
    and "split_js CHR 0x0A chunk = pre @ line # post"
    and "list_all keeps_reading pre"
    and "line = a @ ''[END_OF_DOC='' @ b"
    and "s' = step s (Settled i (Read_chunk chunk))"
  shows "phase (handlers s' ! i) = Fetching_full \<and>
         requests s' =
           requests s @ [Fetch ''/api/generate-contract-full''
                           (JObject [(''contract_id'', JString (text_between_equals line))]) False] \<and>
         content (handlers s' ! i) = content (handlers s ! i) @ data_payloads pre \<and>
         (\<forall>c. step s' (Settled i (Read_chunk c)) = s') \<and>
         (quiescent s0 \<and> no_submit evs \<and> s = session s0 formData evs \<and>
          Suc i = length (handlers s) \<longrightarrow>
            issued_since s0 s' =
              [Fetch ''/api/generate-contract'' formData True,
               Fetch ''/api/generate-contract-full''
                 (JObject [(''contract_id'', JString (text_between_equals line))]) False] \<and>
            streamingContent s' = streamingContent s @ data_payloads pre)"
proof -
  let ?rq = "Fetch ''/api/generate-contract-full''
               (JObject [(''contract_id'', JString (text_between_equals line))]) False"
  have hs: "has_sentinel line"
    unfolding has_sentinel_def includes_js_iff using assms(5) by blast
  have rq: "getFullContract_request (Some (text_between_equals line)) = ?rq"
    by (simp add: getFullContract_request_def)
  from marker_line_any_call [OF assms(1,2,3,4) hs]
  have a: "phase (handlers s' ! i) = Fetching_full"
    "content (handlers s' ! i) = content (handlers s ! i) @ data_payloads pre"
    "requests s' = requests s @ [?rq]"
    "length (handlers s') = length (handlers s)"
    unfolding assms(6) rq by simp_all
  have n: "step s' (Settled i (Read_chunk c)) = s'" for c
  proof (rule step_settled_noop)
    show "i < length (handlers s')"
      using assms(1) a(4) by simp
    show "resume (Read_chunk c) (handlers s' ! i) s' = (handlers s' ! i, s')"
      by (simp add: resume_def a(1))
  qed
  have q: "issued_since s0 s' = [Fetch ''/api/generate-contract'' formData True, ?rq] \<and>
           streamingContent s' = streamingContent s @ data_payloads pre"
    if c: "quiescent s0" "no_submit evs" "s = session s0 formData evs"
      "Suc i = length (handlers s)"
  proof -
    obtain rs where
      R: "requests s = requests s0 @ Fetch ''/api/generate-contract'' formData True # rs"
      and H: "handlers s \<noteq> []" "butlast (handlers s) = handlers s0"
      and P: "phase_inv (latest s) rs s"
      using c(1,2,3) by (rule session_facts)
    have l: "latest s = handlers s ! i"
      using H(1) c(4) [symmetric] by (simp add: latest_def last_conv_nth)
    have ev: "Settled i (Read_chunk chunk) = to_latest s (Read_chunk chunk)"
      using c(4) [symmetric] by (simp add: to_latest_def)
    have r: "phase (latest s) = Reading"
      unfolding l by (rule assms(2))
    from P r have f: "rs = []" "streamingContent s = content (latest s)"
      by (simp_all add: phase_inv_def)
    have st: "streamingContent s' = streamingContent s @ data_payloads pre"
      unfolding assms(6) ev step_to_latest [OF H(1)]
        resume_chunk_sentinel [OF r f(2) assms(3,4) hs]
      using f(2) by simp
    have "requests s' = requests s0 @ [Fetch ''/api/generate-contract'' formData True, ?rq]"
      using a(3) R f(1) by simp
    then have "issued_since s0 s' = [Fetch ''/api/generate-contract'' formData True, ?rq]"
      by (rule issued_since_eq)
    with st show ?thesis by simp
  qed
  from a(1,2,3) n q show ?thesis by blast
qed

text \<open>The theorem at a data line that mentions the marker in its payload.\<close>

theorem marker_anywhere_triggers_retrieval_witness:
  "0 < length (handlers (session initial_state (JObject [])
     [Settled 0 Response_stream, Settled 0 (Read_chunk ''data: Hello'')])) \<and>
   phase (handlers (session initial_state (JObject [])
     [Settled 0 Response_stream, Settled 0 (Read_chunk ''data: Hello'')]) ! 0) = Reading \<and>
   split_js CHR 0x0A ''data:  world\<newline>data: see [END_OF_DOC=abc] here\<newline>data: x'' =
     [''data:  world''] @ ''data: see [END_OF_DOC=abc] here'' # [''data: x''] \<and>
   list_all keeps_reading [''data:  world''] \<and>
   ''data: see [END_OF_DOC=abc] here'' = ''data: see '' @ ''[END_OF_DOC='' @ ''abc] here'' \<and>
   quiescent initial_state \<and>
   no_submit [Settled 0 Response_stream, Settled 0 (Read_chunk ''data: Hello'')] \<and>
   Suc 0 = length (handlers (session initial_state (JObject [])
     [Settled 0 Response_stream, Settled 0 (Read_chunk ''data: Hello'')])) \<and>
   map phase (handlers (step (session initial_state (JObject [])
       [Settled 0 Response_stream, Settled 0 (Read_chunk ''data: Hello'')])
     (Settled 0 (Read_chunk ''data:  world\<newline>data: see [END_OF_DOC=abc] here\<newline>data: x'')))) =
     [Fetching_full] \<and>
   issued_since initial_state (step (session initial_state (JObject [])
       [Settled 0 Response_stream, Settled 0 (Read_chunk ''data: Hello'')])
     (Settled 0 (Read_chunk ''data:  world\<newline>data: see [END_OF_DOC=abc] here\<newline>data: x''))) =
     [Fetch ''/api/generate-contract'' (JObject []) True,
      Fetch ''/api/generate-contract-full'' (JObject [(''contract_id'', JString ''abc] here'')]) False] \<and>
   streamingContent (step (session initial_state (JObject [])
       [Settled 0 Response_stream, Settled 0 (Read_chunk ''data: Hello'')])
     (Settled 0 (Read_chunk ''data:  world\<newline>data: see [END_OF_DOC=abc] here\<newline>data: x''))) =
     ''Hello world''"
proof -
  let ?evs = "[Settled 0 Response_stream, Settled 0 (Read_chunk ''data: Hello'')]"
  let ?s = "session initial_state (JObject []) ?evs"
  let ?chunk = "''data:  world\<newline>data: see [END_OF_DOC=abc] here\<newline>data: x''"
  let ?s' = "step ?s (Settled 0 (Read_chunk ?chunk))"
  have q1: "quiescent initial_state"
    by (simp add: quiescent_def initial_state_def)
  have q2: "no_submit ?evs"
    by (simp add: no_submit_def)
  have h1: "0 < length (handlers ?s)"
    and h2: "phase (handlers ?s ! 0) = Reading"
    and q4: "Suc 0 = length (handlers ?s)"
    and sc: "streamingContent ?s = ''Hello''"
    and hl: "length (handlers ?s') = 1"
    by (simp_all add: eval_session)
  have h3: "split_js CHR 0x0A ?chunk =
     [''data:  world''] @ ''data: see [END_OF_DOC=abc] here'' # [''data: x'']"
    by simp
  have h4: "list_all keeps_reading [''data:  world'']"
    by (simp add: keeps_reading_def has_sentinel_def is_error_line_def is_data_line_def
        payload_def startsWith_def slice_from_def)
  have h5: "''data: see [END_OF_DOC=abc] here'' = ''data: see '' @ ''[END_OF_DOC='' @ ''abc] here''"
    by simp
  have tb: "text_between_equals ''data: see [END_OF_DOC=abc] here'' = ''abc] here''"
    by (simp add: text_between_equals_def text_after_first_equals_def)
  have dp: "data_payloads [''data:  world''] = '' world''"
    by (simp add: data_payloads_def is_data_line_def payload_def startsWith_def slice_from_def)
  have ph: "map phase xs = [p]" if "length xs = 1" "phase (xs ! 0) = p"
    for xs :: "handler list" and p
    using that by (cases xs) simp_all
  note r = marker_anywhere_triggers_retrieval [OF h1 h2 h3 h4 h5 refl,
      where ?s0.0 = initial_state and evs = ?evs and formData = "JObject []"]
  from r have a: "phase (handlers ?s' ! 0) = Fetching_full"
    by blast
  from r q1 q2 q4 have b: "issued_since initial_state ?s' =
          [Fetch ''/api/generate-contract'' (JObject []) True,
           Fetch ''/api/generate-contract-full''
             (JObject [(''contract_id'', JString (text_between_equals ''data: see [END_OF_DOC=abc] here''))]) False] \<and>
        streamingContent ?s' = streamingContent ?s @ data_payloads [''data:  world'']"
    by blast
  then have c: "issued_since initial_state ?s' =
          [Fetch ''/api/generate-contract'' (JObject []) True,
           Fetch ''/api/generate-contract-full''
             (JObject [(''contract_id'', JString ''abc] here'')]) False]"
    and d: "streamingContent ?s' = ''Hello world''"
    unfolding tb sc dp by simp_all
  have e: "map phase (handlers ?s') = [Fetching_full]"
    using hl a by (rule ph)
  from h1 h2 h3 h4 h5 q1 q2 q4 c d e show ?thesis
    by (intro conjI)
qed

text \<open>
  C9 as stated fails: for a line with two \<open>=\<close> the \<open>contract_id\<close> sent is not the
  text after the first \<open>=\<close> of the line; it stops at the second \<open>=\<close>.
\<close>

theorem retrieval_id_stops_at_second_equals:
  "requests (session initial_state (JObject [])
      [Settled 0 Response_stream, Settled 0 (Read_chunk ''data: a=b [END_OF_DOC=x]'')]) =
     [Fetch ''/api/generate-contract'' (JObject []) True,
      Fetch ''/api/generate-contract-full''
        (JObject [(''contract_id'', JString ''b [END_OF_DOC'')]) False] \<and>
   text_after_first_equals ''data: a=b [END_OF_DOC=x]'' = ''b [END_OF_DOC=x]''"
  by (simp add: eval_session text_after_first_equals_def)

subsection \<open>The contract view\<close>

lemma get_prop_truthy: "get_prop j k = Some v \<Longrightarrow> truthy j"
  by (cases j) simp_all

lemma render_value_primitive: "is_primitive v \<Longrightarrow> render_value v = Inr (primitive_text v)"
  by (cases v rule: is_primitive.cases) (simp_all add: render_value_def)

lemma step_full_ok:
  assumes "i < length (handlers s)" "phase (handlers s ! i) = Fetching_full"
  shows "step s (Settled i (Full_ok doc)) =
         (return_finally (s\<lparr>contractData := doc\<rparr>))
           \<lparr>handlers := (handlers s)[i := (handlers s ! i)\<lparr>phase := Finished\<rparr>]\<rparr>"
  using assms by (simp add: step_def resume_def)

text \<open>
  C5 (as amended). When the full-document fetch of a call completes with a document whose
  \<open>htmlContent\<close> and \<open>contract_type\<close> are strings and whose \<open>total_sections\<close>,
  \<open>estimated_pages\<close>, \<open>generation_time\<close> and \<open>model_used\<close> are absent or are not
  objects (strings, numbers, booleans, null), the document is stored, the view of the
  streamed text is gone, and the contract view shows the document's \<open>htmlContent\<close> as
  HTML together with its contract type (formatted), section count, estimated pages,
  generation time and model. The five metadata properties read are declared by
  \<open>ContractGenerationResponse\<close>; \<open>htmlContent\<close> is not: it is declared by the
  component's own \<open>ContractData\<close> interface.
\<close>

theorem fetched_contract_replaces_stream:
  assumes "i < length (handlers s)" and "phase (handlers s ! i) = Fetching_full"
    and "get_prop doc ''htmlContent'' = Some (JString html)"
    and "get_prop doc ''contract_type'' = Some (JString type)"
    and "is_primitive (get_prop doc ''total_sections'')"
    and "is_primitive (get_prop doc ''estimated_pages'')"
    and "is_primitive (get_prop doc ''generation_time'')"
    and "is_primitive (get_prop doc ''model_used'')"
    and "s' = step s (Settled i (Full_ok doc))"
  shows "contractData s' = doc \<and>
         phase (handlers s' ! i) = Finished \<and>
         streaming_display (render_generator s') = None \<and>
         contract_display (render_generator s') =
           Shown \<lparr>content_prop = Some (JString html), isStreaming = False, metadata = Some doc\<rparr> \<and>
         ContractDisplay \<lparr>content_prop = Some (JString html), isStreaming = False,
                           metadata = Some doc\<rparr> =
           Inr \<lparr>details =
                  Shown \<lparr>contract_type_text = formatContractType type,
                         total_sections_text =
                           primitive_text (get_prop doc ''total_sections'') @ [Text '' sections''],
                         estimated_pages_text =
                           Text ''~'' # primitive_text (get_prop doc ''estimated_pages'')
                             @ [Text '' pages''],
                         generation_time_text =
                           primitive_text (get_prop doc ''generation_time'') @ [Text ''s''],
                         model_used_text =
                           Text ''Generated using '' # primitive_text (get_prop doc ''model_used'')\<rparr>,
                inner_html = Some (JString html), live = False,
                stats = (if html = [] then Hidden
                         else Shown (length html, includes_js html ''<''))\<rparr> \<and>
         set display_reads \<subseteq> set ContractGenerationResponse_fields \<and>
         set generator_reads \<subseteq> set ContractData_fields \<and>
         ''htmlContent'' \<notin> set ContractGenerationResponse_fields"
proof -
  have t: "truthy doc"
    using assms(3) by (rule get_prop_truthy)
  have st: "s' = (return_finally (s\<lparr>contractData := doc\<rparr>))
                   \<lparr>handlers := (handlers s)[i := (handlers s ! i)\<lparr>phase := Finished\<rparr>]\<rparr>"
    unfolding assms(9) using assms(1,2) by (rule step_full_ok)
  have a: "contractData s' = doc" "phase (handlers s' ! i) = Finished"
    unfolding st using assms(1) by (simp_all add: return_finally_def)
  have b: "streaming_display (render_generator s') = None"
    "contract_display (render_generator s') =
       Shown \<lparr>content_prop = Some (JString html), isStreaming = False, metadata = Some doc\<rparr>"
    using a(1) t assms(3) by (simp_all add: render_generator_def guarded_def)
  have r: "render_details doc (formatContractType type) =
           Inr \<lparr>contract_type_text = formatContractType type,
                total_sections_text =
                  primitive_text (get_prop doc ''total_sections'') @ [Text '' sections''],
                estimated_pages_text =
                  Text ''~'' # primitive_text (get_prop doc ''estimated_pages'') @ [Text '' pages''],
                generation_time_text =
                  primitive_text (get_prop doc ''generation_time'') @ [Text ''s''],
                model_used_text =
                  Text ''Generated using '' # primitive_text (get_prop doc ''model_used'')\<rparr>"
    unfolding render_details_def
      render_value_primitive [OF assms(5)] render_value_primitive [OF assms(6)]
      render_value_primitive [OF assms(7)] render_value_primitive [OF assms(8)]
    by simp
  have cs: "content_stats (Some (JString html)) =
            Inr (if html = [] then Hidden else Shown (length html, includes_js html ''<''))"
    by (simp add: content_stats_def guarded_def falsy_slot_def)
  have c: "ContractDisplay \<lparr>content_prop = Some (JString html), isStreaming = False,
                            metadata = Some doc\<rparr> =
           Inr \<lparr>details =
                  Shown \<lparr>contract_type_text = formatContractType type,
                         total_sections_text =
                           primitive_text (get_prop doc ''total_sections'') @ [Text '' sections''],
                         estimated_pages_text =
                           Text ''~'' # primitive_text (get_prop doc ''estimated_pages'')
                             @ [Text '' pages''],
                         generation_time_text =
                           primitive_text (get_prop doc ''generation_time'') @ [Text ''s''],
                         model_used_text =
                           Text ''Generated using '' # primitive_text (get_prop doc ''model_used'')\<rparr>,
                inner_html = Some (JString html), live = False,
                stats = (if html = [] then Hidden
                         else Shown (length html, includes_js html ''<''))\<rparr>"
    using t assms(4) by (simp add: ContractDisplay_def r cs)
  have d: "set display_reads \<subseteq> set ContractGenerationResponse_fields"
    "set generator_reads \<subseteq> set ContractData_fields"
    "''htmlContent'' \<notin> set ContractGenerationResponse_fields"
    by (simp_all add: display_reads_def generator_reads_def ContractGenerationResponse_fields_def
        ContractData_fields_def)
  from a b c d show ?thesis by (intro conjI)
qed

text \<open>The theorem at a session whose retrieval returns a small document.\<close>

theorem fetched_contract_replaces_stream_witness:
  "0 < length (handlers (session initial_state (JObject [])
        [Settled 0 Response_stream, Settled 0 (Read_chunk ''data: Hi\<newline>[END_OF_DOC=abc]'')])) \<and>
   phase (handlers (session initial_state (JObject [])
        [Settled 0 Response_stream, Settled 0 (Read_chunk ''data: Hi\<newline>[END_OF_DOC=abc]'')]) ! 0) =
     Fetching_full \<and>
   is_primitive (get_prop (JObject [(''contract_type'', JString ''privacy_policy''),
                           (''total_sections'', JNumber 12),
                           (''model_used'', JString ''m''),
                           (''htmlContent'', JString ''<h1>Privacy</h1>'')]) ''total_sections'') \<and>
   is_primitive (get_prop (JObject [(''contract_type'', JString ''privacy_policy''),
                           (''total_sections'', JNumber 12),
                           (''model_used'', JString ''m''),
                           (''htmlContent'', JString ''<h1>Privacy</h1>'')]) ''estimated_pages'') \<and>
   streaming_display (render_generator
     (session initial_state (JObject [])
        [Settled 0 Response_stream, Settled 0 (Read_chunk ''data: Hi\<newline>[END_OF_DOC=abc]'')])) =
     Some \<lparr>content_prop = Some (JString ''Hi''), isStreaming = True, metadata = None\<rparr> \<and>
   streaming_display (render_generator
     (step (session initial_state (JObject [])
        [Settled 0 Response_stream, Settled 0 (Read_chunk ''data: Hi\<newline>[END_OF_DOC=abc]'')])
        (Settled 0 (Full_ok (JObject [(''contract_type'', JString ''privacy_policy''),
                           (''total_sections'', JNumber 12),
                           (''model_used'', JString ''m''),
                           (''htmlContent'', JString ''<h1>Privacy</h1>'')]))))) = None \<and>
   contract_display (render_generator
     (step (session initial_state (JObject [])
        [Settled 0 Response_stream, Settled 0 (Read_chunk ''data: Hi\<newline>[END_OF_DOC=abc]'')])
        (Settled 0 (Full_ok (JObject [(''contract_type'', JString ''privacy_policy''),
                           (''total_sections'', JNumber 12),
                           (''model_used'', JString ''m''),
                           (''htmlContent'', JString ''<h1>Privacy</h1>'')]))))) =
     Shown \<lparr>content_prop = Some (JString ''<h1>Privacy</h1>''), isStreaming = False,
       metadata = Some (JObject [(''contract_type'', JString ''privacy_policy''),
                           (''total_sections'', JNumber 12),
                           (''model_used'', JString ''m''),
                           (''htmlContent'', JString ''<h1>Privacy</h1>'')])\<rparr> \<and>
   ContractDisplay \<lparr>content_prop = Some (JString ''<h1>Privacy</h1>''), isStreaming = False,
       metadata = Some (JObject [(''contract_type'', JString ''privacy_policy''),
                           (''total_sections'', JNumber 12),
                           (''model_used'', JString ''m''),
                           (''htmlContent'', JString ''<h1>Privacy</h1>'')])\<rparr> =
     Inr \<lparr>details =
            Shown \<lparr>contract_type_text = ''Privacy Policy'',
                   total_sections_text = [Number 12, Text '' sections''],
                   estimated_pages_text = [Text ''~'', Text '' pages''],
                   generation_time_text = [Text ''s''],
                   model_used_text = [Text ''Generated using '', Text ''m'']\<rparr>,
          inner_html = Some (JString ''<h1>Privacy</h1>''), live = False,
          stats = Shown (16, True)\<rparr>"
proof -
  let ?s = "session initial_state (JObject [])
        [Settled 0 Response_stream, Settled 0 (Read_chunk ''data: Hi\<newline>[END_OF_DOC=abc]'')]"
  let ?doc = "JObject [(''contract_type'', JString ''privacy_policy''),
                       (''total_sections'', JNumber 12),
                       (''model_used'', JString ''m''),
                       (''htmlContent'', JString ''<h1>Privacy</h1>'')]"
  have h1: "0 < length (handlers ?s)"
    and h2: "phase (handlers ?s ! 0) = Fetching_full"
    and sc: "streamingContent ?s = ''Hi''" "contractData ?s = JNull" "isGenerating ?s"
    by (simp_all add: eval_session)
  have h3: "get_prop ?doc ''htmlContent'' = Some (JString ''<h1>Privacy</h1>'')"
    and h4: "get_prop ?doc ''contract_type'' = Some (JString ''privacy_policy'')"
    and h5: "is_primitive (get_prop ?doc ''total_sections'')"
    and h6: "is_primitive (get_prop ?doc ''estimated_pages'')"
    and h7: "is_primitive (get_prop ?doc ''generation_time'')"
    and h8: "is_primitive (get_prop ?doc ''model_used'')"
    and pt: "primitive_text (get_prop ?doc ''total_sections'') = [Number 12]"
      "primitive_text (get_prop ?doc ''estimated_pages'') = []"
      "primitive_text (get_prop ?doc ''generation_time'') = []"
      "primitive_text (get_prop ?doc ''model_used'') = [Text ''m'']"
    by simp_all
  have f: "formatContractType ''privacy_policy'' = ''Privacy Policy''"
    by (simp add: formatContractType_def is_word_char_def toUpperCase_char_def)
  have i: "includes_js ''<h1>Privacy</h1>'' ''<''"
    by (simp add: startsWith_def)
  have v: "streaming_display (render_generator ?s) =
     Some \<lparr>content_prop = Some (JString ''Hi''), isStreaming = True, metadata = None\<rparr>"
    using sc by (simp add: render_generator_def)
  from fetched_contract_replaces_stream [OF h1 h2 h3 h4 h5 h6 h7 h8 refl]
  have "streaming_display (render_generator (step ?s (Settled 0 (Full_ok ?doc)))) = None \<and>
     contract_display (render_generator (step ?s (Settled 0 (Full_ok ?doc)))) =
       Shown \<lparr>content_prop = Some (JString ''<h1>Privacy</h1>''), isStreaming = False,
               metadata = Some ?doc\<rparr> \<and>
     ContractDisplay \<lparr>content_prop = Some (JString ''<h1>Privacy</h1>''), isStreaming = False,
       metadata = Some ?doc\<rparr> =
     Inr \<lparr>details =
            Shown \<lparr>contract_type_text = ''Privacy Policy'',
                   total_sections_text = [Number 12, Text '' sections''],
                   estimated_pages_text = [Text ''~'', Text '' pages''],
                   generation_time_text = [Text ''s''],
                   model_used_text = [Text ''Generated using '', Text ''m'']\<rparr>,
          inner_html = Some (JString ''<h1>Privacy</h1>''), live = False,
          stats = Shown (16, True)\<rparr>"
    unfolding f pt using i by simp
  with h1 h2 h5 h6 v show ?thesis by blast
qed

text \<open>
  C5 as stated fails: not every property read of the fetched document is declared by the
  retrieval response type. \<open>htmlContent\<close> is not, and for a document with exactly the
  properties of \<open>ContractGenerationResponse\<close> the contract view is handed no content:
  it shows the details and an empty contract.
\<close>

theorem htmlContent_not_on_response_type:
  "\<not> set (generator_reads @ display_reads) \<subseteq> set ContractGenerationResponse_fields \<and>
   map fst [(''contract_id'', JString ''abc''), (''contract_type'', JString ''nda''),
            (''sections'', JArray []), (''total_sections'', JNumber 0),
            (''estimated_pages'', JNumber 1), (''generation_time'', JNumber 2),
            (''model_used'', JString ''m'')] = ContractGenerationResponse_fields \<and>
   contract_display (render_generator
     (session initial_state (JObject [])
        [Settled 0 Response_stream, Settled 0 (Read_chunk ''[END_OF_DOC=abc]''),
         Settled 0 (Full_ok (JObject [(''contract_id'', JString ''abc''),
               (''contract_type'', JString ''nda''),
               (''sections'', JArray []), (''total_sections'', JNumber 0),
               (''estimated_pages'', JNumber 1), (''generation_time'', JNumber 2),
               (''model_used'', JString ''m'')]))])) =
     Shown \<lparr>content_prop = None, isStreaming = False,
            metadata = Some (JObject [(''contract_id'', JString ''abc''),
               (''contract_type'', JString ''nda''),
               (''sections'', JArray []), (''total_sections'', JNumber 0),
               (''estimated_pages'', JNumber 1), (''generation_time'', JNumber 2),
               (''model_used'', JString ''m'')])\<rparr> \<and>
   map_sum id (\<lambda>v. (inner_html v, stats v))
     (ContractDisplay \<lparr>content_prop = None, isStreaming = False,
            metadata = Some (JObject [(''contract_id'', JString ''abc''),
               (''contract_type'', JString ''nda''),
               (''sections'', JArray []), (''total_sections'', JNumber 0),
               (''estimated_pages'', JNumber 1), (''generation_time'', JNumber 2),
               (''model_used'', JString ''m'')])\<rparr>) = Inr (None, Hidden)"
  by (simp add: eval_session render_generator_def generator_reads_def display_reads_def
      ContractGenerationResponse_fields_def guarded_def ContractDisplay_def content_stats_def
      render_details_def render_value_def formatContractType_def)

text \<open>
  A metadata value that is an object, or an array that holds one, cannot be shown: React
  throws when it renders the details panel. A document without a \<open>contract_type\<close>
  makes \<open>formatContractType\<close> throw before that.
\<close>

lemma object_valued_metadata_fails:
  "ContractDisplay \<lparr>content_prop = Some (JString ''<p>x</p>''), isStreaming = False,
       metadata = Some (JObject [(''contract_type'', JString ''nda''),
                                 (''model_used'', JObject [(''name'', JString ''m'')]),
                                 (''htmlContent'', JString ''<p>x</p>'')])\<rparr> =
     Inl Invalid_child \<and>
   ContractDisplay \<lparr>content_prop = Some (JString ''<p>x</p>''), isStreaming = False,
       metadata = Some (JObject [(''contract_type'', JString ''nda''),
                                 (''total_sections'', JArray [JNumber 1, JObject []]),
                                 (''htmlContent'', JString ''<p>x</p>'')])\<rparr> =
     Inl Invalid_child \<and>
   ContractDisplay \<lparr>content_prop = Some (JString ''<p>x</p>''), isStreaming = False,
       metadata = Some (JObject [(''total_sections'', JNumber 3),
                                 (''htmlContent'', JString ''<p>x</p>'')])\<rparr> =
     Inl TypeError"
  by (simp add: ContractDisplay_def content_stats_def render_details_def render_value_def
      guarded_def startsWith_def)

subsection \<open>The download\<close>

lemma cells_eq:
  assumes "cells s = cells t"
  shows "isGenerating s = isGenerating t" "contractData s = contractData t"
    "streamingContent s = streamingContent t" "error s = error t"
    "abortController s = abortController t" "handlers s = handlers t"
    "downloads s = downloads t"
  using assms by (simp_all add: cells_def)

lemma cells_for_lines:
  assumes "cells s = cells t"
  shows "fst (for_lines ls c s) = fst (for_lines ls c t) \<and>
         fst (snd (for_lines ls c s)) = fst (snd (for_lines ls c t)) \<and>
         cells (snd (snd (for_lines ls c s))) = cells (snd (snd (for_lines ls c t)))"
  using assms by (simp add: for_lines_eq cells_def)

lemma cells_resume:
  assumes "cells s = cells t"
  shows "fst (resume out h s) = fst (resume out h t) \<and>
         cells (snd (resume out h s)) = cells (snd (resume out h t))"
proof (cases "phase h")
  case Awaiting_response
  then show ?thesis
    using assms
    by (cases out) (simp_all add: resume_def cells_def catch_finally_def)
next
  case Reading
  show ?thesis
  proof (cases out)
    case (Read_chunk chunk)
    obtain e c s' where fs: "for_lines (split_js CHR 0x0A chunk) (content h) s = (e, c, s')"
      by (cases "for_lines (split_js CHR 0x0A chunk) (content h) s") auto
    obtain e' c' t' where ft: "for_lines (split_js CHR 0x0A chunk) (content h) t = (e', c', t')"
      by (cases "for_lines (split_js CHR 0x0A chunk) (content h) t") auto
    from cells_for_lines [OF assms, of "split_js CHR 0x0A chunk" "content h"] fs ft
    have e: "e' = e" "c' = c" "cells s' = cells t'"
      by simp_all
    show ?thesis
      using e(3)
      by (cases e) (simp_all add: resume_def Reading Read_chunk fs ft e(1,2) cells_def
          catch_finally_def)
  qed (use assms Reading in \<open>simp_all add: resume_def cells_def catch_finally_def return_finally_def\<close>)
next
  case Fetching_full
  then show ?thesis
    using assms
    by (cases out) (simp_all add: resume_def cells_def return_finally_def)
next
  case Finished
  then show ?thesis
    using assms by (simp add: resume_def)
qed

lemma handleDownload_cells:
  "cells s = cells t \<Longrightarrow> handleDownload s = handleDownload t"
  by (simp add: handleDownload_def cells_def)

text \<open>
  A step reads the fetches issued so far nowhere: the other cells after the step are
  decided by the other cells before it.
\<close>

lemma cells_step:
  assumes "cells s = cells t"
  shows "cells (step s ev) = cells (step t ev)"
proof (cases ev)
  case (Submit formData)
  then show ?thesis
    using assms by (simp add: step_def cells_def handleGenerateContract_start_def)
next
  case Stop_clicked
  then show ?thesis
    using assms
    by (simp add: step_def cells_def stop_clicked_def handleStopGeneration_def
        catch_finally_def)
next
  case Download_clicked
  show ?thesis
    using assms handleDownload_cells [OF assms]
    by (cases "handleDownload t") (simp_all add: step_def Download_clicked cells_def)
next
  case (Settled i out)
  obtain h s' where rs: "resume out (handlers s ! i) s = (h, s')"
    by (cases "resume out (handlers s ! i) s") auto
  obtain h' t' where rt: "resume out (handlers s ! i) t = (h', t')"
    by (cases "resume out (handlers s ! i) t") auto
  from cells_resume [OF assms, of out "handlers s ! i"] rs rt
  have e: "h' = h" "cells s' = cells t'"
    by simp_all
  have hs: "handlers t = handlers s"
    using assms by (simp add: cells_def)
  show ?thesis
    using e(2) assms by (simp add: step_def Settled hs rs rt e(1) cells_def)
next
  case (Download_failed err)
  then show ?thesis
    using assms by (simp add: step_def cells_def)
next
  case Download_done
  then show ?thesis
    using assms by (simp add: step_def cells_def)
qed

lemma cells_run: "cells s = cells t \<Longrightarrow> cells (run s evs) = cells (run t evs)"
proof (induction evs arbitrary: s t)
  case Nil
  then show ?case by (simp add: run_Nil)
next
  case (Cons ev evs)
  from Cons.prems have "cells (step s ev) = cells (step t ev)"
    by (rule cells_step)
  then have "cells (run (step s ev) evs) = cells (run (step t ev) evs)"
    by (rule Cons.IH)
  then show ?case by simp
qed

text \<open>The form data of a session reaches nothing but the body of its generation request.\<close>

lemma cells_session: "cells (session s0 formData evs) = cells (session s0 formData' evs)"
  unfolding session_def
  by (rule cells_run) (simp add: cells_def handleGenerateContract_start_def)

lemma stringify_businessContext:
  "map_of (stringify_props
      [(''businessContext'', b), (''contractType'', c),
       (''customSections'', Some (JArray [])),
       (''language'', Some (JString ''en'')),
       (''jurisdiction'', Some (JString []))]) ''businessContext'' = b"
  by (cases b; cases c) simp_all

text \<open>
  C10 (as amended). \<open>businessContext\<close> is not a property the \<open>ContractData\<close>
  interface declares, and the download handler reads it from \<open>contractData\<close>
  all the same. In every session whose stored document is truthy the handler posts to
  \<open>/api/download-contract\<close>, without a signal, a body whose \<open>businessContext\<close> is the
  value of that property of the stored document: it is absent from the body exactly when
  the document has no such property. The request is the same whatever form data the
  session was started with.
\<close>

theorem download_businessContext_from_document:
  assumes "s = session s0 formData evs" and "truthy (contractData s)"
  shows "''businessContext'' \<notin> set ContractData_fields \<and>
         (\<exists>b. handleDownload s = Some (Fetch ''/api/download-contract'' b False) \<and>
              get_prop b ''businessContext'' = get_prop (contractData s) ''businessContext'') \<and>
         handleDownload (session s0 formData' evs) = handleDownload s"
proof -
  have n: "''businessContext'' \<notin> set ContractData_fields"
    by (simp add: ContractData_fields_def)
  let ?b = "JObject (stringify_props
          [(''businessContext'', get_prop (contractData s) ''businessContext''),
           (''contractType'', get_prop (contractData s) ''contractType''),
           (''customSections'', Some (JArray [])),
           (''language'', Some (JString ''en'')),
           (''jurisdiction'', Some (JString []))])"
  have h: "handleDownload s = Some (Fetch ''/api/download-contract'' ?b False)"
    using assms(2) by (simp add: handleDownload_def)
  have g: "get_prop ?b ''businessContext'' = get_prop (contractData s) ''businessContext''"
    by (simp only: get_prop.simps stringify_businessContext)
  have i: "handleDownload (session s0 formData' evs) = handleDownload s"
    unfolding assms(1) by (rule handleDownload_cells) (rule cells_session)
  from n h g i show ?thesis by blast
qed

text \<open>
  The theorem at a completed session that was started with a business context and whose
  document has no \<open>businessContext\<close>: the body of the download request has none, also
  when the session is started with another business context.
\<close>

theorem download_businessContext_from_document_witness:
  "truthy (contractData (session initial_state
      (JObject [(''business_context'', JObject [(''description'', JString ''shop'')]),
                (''contract_type'', JString ''terms_of_service'')])
      [Settled 0 Response_stream, Settled 0 (Read_chunk ''[END_OF_DOC=abc]''),
       Settled 0 (Full_ok (JObject [(''contract_type'', JString ''nda''),
                                    (''htmlContent'', JString ''<p>x</p>'')]))])) \<and>
   handleDownload (session initial_state
      (JObject [(''business_context'', JObject [(''description'', JString ''shop'')]),
                (''contract_type'', JString ''terms_of_service'')])
      [Settled 0 Response_stream, Settled 0 (Read_chunk ''[END_OF_DOC=abc]''),
       Settled 0 (Full_ok (JObject [(''contract_type'', JString ''nda''),
                                    (''htmlContent'', JString ''<p>x</p>'')]))]) =
     Some (Fetch ''/api/download-contract''
       (JObject [(''customSections'', JArray []), (''language'', JString ''en''),
                 (''jurisdiction'', JString [])])
       False) \<and>
   handleDownload (session initial_state
      (JObject [(''business_context'', JObject [(''description'', JString ''bakery'')]),
                (''contract_type'', JString ''terms_of_service'')])
      [Settled 0 Response_stream, Settled 0 (Read_chunk ''[END_OF_DOC=abc]''),
       Settled 0 (Full_ok (JObject [(''contract_type'', JString ''nda''),
                                    (''htmlContent'', JString ''<p>x</p>'')]))]) =
     Some (Fetch ''/api/download-contract''
       (JObject [(''customSections'', JArray []), (''language'', JString ''en''),
                 (''jurisdiction'', JString [])])
       False)"
proof -
  let ?fd = "JObject [(''business_context'', JObject [(''description'', JString ''shop'')]),
                (''contract_type'', JString ''terms_of_service'')]"
  let ?fd' = "JObject [(''business_context'', JObject [(''description'', JString ''bakery'')]),
                (''contract_type'', JString ''terms_of_service'')]"
  let ?doc = "JObject [(''contract_type'', JString ''nda''), (''htmlContent'', JString ''<p>x</p>'')]"
  let ?evs = "[Settled 0 Response_stream, Settled 0 (Read_chunk ''[END_OF_DOC=abc]''),
               Settled 0 (Full_ok ?doc)]"
  have c: "contractData (session initial_state ?fd ?evs) = ?doc"
    by (simp add: eval_session)
  then have h2: "truthy (contractData (session initial_state ?fd ?evs))"
    by simp
  have d: "handleDownload (session initial_state ?fd ?evs) =
     Some (Fetch ''/api/download-contract''
       (JObject [(''customSections'', JArray []), (''language'', JString ''en''),
                 (''jurisdiction'', JString [])])
       False)"
    by (simp add: handleDownload_def c)
  from download_businessContext_from_document [OF refl h2, of ?fd']
  have "handleDownload (session initial_state ?fd' ?evs) =
        handleDownload (session initial_state ?fd ?evs)"
    by blast
  with h2 d show ?thesis by simp
qed

text \<open>
  C10 as stated fails: the \<open>businessContext\<close> of a download request is not undefined in
  every completed session. The interfaces are erased at run time; when the fetched
  document has a \<open>businessContext\<close> property, the download request carries its value.
\<close>

theorem download_carries_document_businessContext:
  "handleDownload (session initial_state (JObject [])
      [Settled 0 Response_stream, Settled 0 (Read_chunk ''[END_OF_DOC=abc]''),
       Settled 0 (Full_ok (JObject [(''contract_type'', JString ''nda''),
                                    (''htmlContent'', JString ''<p>x</p>''),
                                    (''businessContext'',
                                       JObject [(''description'', JString ''shop'')])]))]) =
     Some (Fetch ''/api/download-contract''
       (JObject [(''businessContext'', JObject [(''description'', JString ''shop'')]),
                 (''customSections'', JArray []), (''language'', JString ''en''),
                 (''jurisdiction'', JString [])])
       False)"
  by (simp add: eval_session)

end
